theory Spec2Isabelle
  imports Complex_Main "HOL-Library.Word" "HOL-Library.Stream"
begin

section \<open>ParticleManager.cpp: a shallow embedding\<close>

text \<open>
  The embedding follows \<^verbatim>\<open>src/ParticleManager.cpp\<close> function by function. Members and
  struct fields keep their names without the leading underscore, which an Isabelle
  identifier cannot start with: \<^verbatim>\<open>_center\<close> of the manager is \<open>m_center\<close>,
  \<^verbatim>\<open>_position\<close> of a particle is \<open>p_position\<close>.
\<close>

subsection \<open>Single-precision numbers\<close>

text \<open>
  A C++ \<^verbatim>\<open>float\<close> is an IEEE 754 binary32 value: a finite number, an infinity or
  not-a-number. A finite value is the real number it stands for. Every arithmetic
  operation returns the exact result rounded to the nearest binary32 value, ties to the
  even significand, and a result whose rounded magnitude reaches \<open>2 ^ 128\<close> is an infinity.
  The code is taken to be compiled to such operations, each one rounded on its own. The
  sign of a zero is not kept: the one division of this code divides by a square root,
  which is never a negative zero.
\<close>

datatype cfloat = Fin real | PInf | NInf | NaN

text \<open>
  The binary exponent used for rounding \<open>x\<close> (never below the one of the subnormal
  numbers) and the distance between neighbouring binary32 values there.
\<close>

definition expo :: "real \<Rightarrow> int" where
  "expo x = max (- 126) \<lfloor>log 2 \<bar>x\<bar>\<rfloor>"

definition ulp :: "real \<Rightarrow> real" where
  "ulp x = 2 powr (real_of_int (expo x) - 23)"

definition round_even :: "real \<Rightarrow> int" where
  "round_even q =
     (let f = \<lfloor>q\<rfloor>
      in if q - real_of_int f < 1 / 2 then f
         else if 1 / 2 < q - real_of_int f then f + 1
         else if even f then f else f + 1)"

definition round32 :: "real \<Rightarrow> cfloat" where
  "round32 x =
     (if x = 0 then Fin 0
      else let y = real_of_int (round_even (x / ulp x)) * ulp x
           in if 2 ^ 128 \<le> \<bar>y\<bar> then (if 0 < x then PInf else NInf) else Fin y)"

fun fadd :: "cfloat \<Rightarrow> cfloat \<Rightarrow> cfloat" where
  "fadd (Fin a) (Fin b) = round32 (a + b)"
| "fadd NaN _ = NaN"
| "fadd _ NaN = NaN"
| "fadd PInf NInf = NaN"
| "fadd NInf PInf = NaN"
| "fadd PInf _ = PInf"
| "fadd _ PInf = PInf"
| "fadd NInf _ = NInf"
| "fadd _ NInf = NInf"

fun fsub :: "cfloat \<Rightarrow> cfloat \<Rightarrow> cfloat" where
  "fsub (Fin a) (Fin b) = round32 (a - b)"
| "fsub NaN _ = NaN"
| "fsub _ NaN = NaN"
| "fsub PInf PInf = NaN"
| "fsub NInf NInf = NaN"
| "fsub PInf _ = PInf"
| "fsub _ PInf = NInf"
| "fsub NInf _ = NInf"
| "fsub _ NInf = PInf"

text \<open>The sign of a value that is not NaN, as -1, 0 or 1.\<close>

fun fsgn :: "cfloat \<Rightarrow> real" where
  "fsgn (Fin a) = sgn a"
| "fsgn PInf = 1"
| "fsgn NInf = - 1"
| "fsgn NaN = 0"

fun fmul :: "cfloat \<Rightarrow> cfloat \<Rightarrow> cfloat" where
  "fmul (Fin a) (Fin b) = round32 (a * b)"
| "fmul NaN _ = NaN"
| "fmul _ NaN = NaN"
| "fmul x y =
     (if fsgn x * fsgn y = 0 then NaN else if 0 < fsgn x * fsgn y then PInf else NInf)"

fun fdiv :: "cfloat \<Rightarrow> cfloat \<Rightarrow> cfloat" where
  "fdiv (Fin a) (Fin b) =
     (if b = 0 then (if a = 0 then NaN else if 0 < a then PInf else NInf)
      else round32 (a / b))"
| "fdiv NaN _ = NaN"
| "fdiv _ NaN = NaN"
| "fdiv (Fin a) _ = Fin 0"
| "fdiv x (Fin b) = (if 0 < fsgn x * (if b < 0 then - 1 else 1) then PInf else NInf)"
| "fdiv _ _ = NaN"

fun fsqrt :: "cfloat \<Rightarrow> cfloat" where
  "fsqrt (Fin a) = (if a < 0 then NaN else round32 (sqrt a))"
| "fsqrt PInf = PInf"
| "fsqrt NInf = NaN"
| "fsqrt NaN = NaN"

text \<open>The operator \<^verbatim>\<open>>\<close> on floats: false as soon as an operand is NaN.\<close>

fun fgt :: "cfloat \<Rightarrow> cfloat \<Rightarrow> bool" where
  "fgt (Fin a) (Fin b) = (b < a)"
| "fgt NaN _ = False"
| "fgt _ NaN = False"
| "fgt NInf _ = False"
| "fgt _ PInf = False"
| "fgt _ _ = True"

text \<open>
  The operator \<^verbatim>\<open>%\<close> of C++ on integers: the quotient is truncated towards zero, so the
  remainder has the sign of the dividend.
\<close>

definition c_rem :: "int \<Rightarrow> int \<Rightarrow> int" where
  "c_rem a b = sgn a * (\<bar>a\<bar> mod \<bar>b\<bar>)"

type_synonym u32 = "32 word"

subsection \<open>glm vectors\<close>

text \<open>
  The operations of \<^verbatim>\<open>glm\<close> work component by component. \<^verbatim>\<open>glm::dot\<close> multiplies the
  components and adds the products, for a \<^verbatim>\<open>vec4\<close> as \<^verbatim>\<open>(x + y) + (z + w)\<close>.
\<close>

datatype vec2 = Vec2 cfloat cfloat

datatype vec4 = Vec4 cfloat cfloat cfloat cfloat

text \<open>The constructor \<^verbatim>\<open>glm::vec4(v, z, w)\<close> from a \<^verbatim>\<open>vec2\<close> and two floats.\<close>

fun vec4_of :: "vec2 \<Rightarrow> cfloat \<Rightarrow> cfloat \<Rightarrow> vec4" where
  "vec4_of (Vec2 a b) c d = Vec4 a b c d"

fun vadd2 :: "vec2 \<Rightarrow> vec2 \<Rightarrow> vec2" where
  "vadd2 (Vec2 a b) (Vec2 c d) = Vec2 (fadd a c) (fadd b d)"

fun vscale2 :: "vec2 \<Rightarrow> cfloat \<Rightarrow> vec2" where
  "vscale2 (Vec2 a b) s = Vec2 (fmul a s) (fmul b s)"

fun dot2 :: "vec2 \<Rightarrow> vec2 \<Rightarrow> cfloat" where
  "dot2 (Vec2 a b) (Vec2 c d) = fadd (fmul a c) (fmul b d)"

fun vsub4 :: "vec4 \<Rightarrow> vec4 \<Rightarrow> vec4" where
  "vsub4 (Vec4 a b c d) (Vec4 e f g h) = Vec4 (fsub a e) (fsub b f) (fsub c g) (fsub d h)"

fun dot4 :: "vec4 \<Rightarrow> vec4 \<Rightarrow> cfloat" where
  "dot4 (Vec4 a b c d) (Vec4 e f g h) =
     fadd (fadd (fmul a e) (fmul b f)) (fadd (fmul c g) (fmul d h))"

text \<open>
  \<^verbatim>\<open>glm::inversesqrt(x)\<close> is \<^verbatim>\<open>1 / sqrt(x)\<close> and \<^verbatim>\<open>glm::normalize(v)\<close> is
  \<^verbatim>\<open>v * inversesqrt(dot(v, v))\<close>. At the zero vector the factor is \<^verbatim>\<open>1 / 0 = +inf\<close> and
  each component \<^verbatim>\<open>0 * inf\<close> is not-a-number.
\<close>

definition inversesqrt :: "cfloat \<Rightarrow> cfloat" where
  "inversesqrt x = fdiv (Fin 1) (fsqrt x)"

definition normalize :: "vec2 \<Rightarrow> vec2" where
  "normalize v = vscale2 v (inversesqrt (dot2 v v))"

text \<open>
  \<^verbatim>\<open>glm::length(v)\<close> is \<^verbatim>\<open>sqrt(dot(v, v))\<close>, the magnitude of a vector: the claims speak of
  it, the code does not call it.
\<close>

definition length2 :: "vec2 \<Rightarrow> cfloat" where
  "length2 v = fsqrt (dot2 v v)"

subsection \<open>RandomToast\<close>

text \<open>
  \<^verbatim>\<open>RandomToast.h\<close> is not among the sources. The values that its two generators return
  are inputs of the model: one stream for each generator, consumed one value per call.
  \<^verbatim>\<open>RandomPosAndNeg\<close> returns an integer of either sign, \<^verbatim>\<open>RandomOnRange0to1\<close> a float.
\<close>

record RandomToast =
  posAndNeg :: "int stream"
  onRange0to1 :: "real stream"

definition RandomPosAndNeg :: "RandomToast \<Rightarrow> int \<times> RandomToast" where
  "RandomPosAndNeg g = (shd (posAndNeg g), g\<lparr>posAndNeg := stl (posAndNeg g)\<rparr>)"

definition RandomOnRange0to1 :: "RandomToast \<Rightarrow> cfloat \<times> RandomToast" where
  "RandomOnRange0to1 g = (Fin (shd (onRange0to1 g)), g\<lparr>onRange0to1 := stl (onRange0to1 g)\<rparr>)"

subsection \<open>Particle and ParticleManager\<close>

text \<open>
  \<^verbatim>\<open>Particle\<close> is declared in a header that is not among the sources. The code uses three
  fields, in this order (lines 158 to 160): position, velocity and the "is active" flag.
\<close>

record Particle =
  p_position :: vec4
  p_velocity :: vec4
  p_isActive :: int

datatype gl_enum =
    GL_POINTS | GL_FLOAT | GL_INT | GL_FALSE
  | GL_SHADER_STORAGE_BUFFER | GL_ARRAY_BUFFER | GL_STATIC_DRAW
  | GL_MAX_COMPUTE_WORK_GROUP_COUNT | GL_MAX_COMPUTE_WORK_GROUP_SIZE
  | GL_MAX_COMPUTE_LOCAL_INVOCATIONS | GL_ALL_BARRIER_BITS

record ParticleManager =
  m_programId :: u32
  m_computeProgramId :: u32
  m_allParticles :: "Particle list"
  m_sizeBytes :: nat
  m_drawStyle :: gl_enum
  m_maxParticlesEmittedPerFrame :: u32
  m_center :: vec2
  m_radiusSqr :: cfloat
  m_velocityMin :: cfloat
  m_velocityDelta :: cfloat
  m_unifLocDeltaTimeSec :: int
  m_unifLocRadiusSqr :: int
  m_unifLocEmitterCenter :: int
  m_unifLocMaxParticlesEmittedPerFrame :: int
  m_unifLocMaxParticleCount :: int
  m_shaderBufferId :: u32
  m_vaoId :: u32

subsection \<open>GetNewVelocityVector, ResetParticle, OutOfBounds\<close>

definition GetNewVelocityVector :: "ParticleManager \<Rightarrow> RandomToast \<Rightarrow> vec2 \<times> RandomToast" where
  "GetNewVelocityVector m g =
     (let (r1, g1) = RandomPosAndNeg g;
          newX = Fin (real_of_int (c_rem r1 100));
          (r2, g2) = RandomPosAndNeg g1;
          newY = Fin (real_of_int (c_rem r2 100));
          randomVelocityVector = normalize (Vec2 newX newY);
          (u, g3) = RandomOnRange0to1 g2;
          velocityVariation = fmul u (m_velocityDelta m);
          velocityMagnitude = fadd (m_velocityMin m) velocityVariation
      in (vscale2 randomVelocityVector velocityMagnitude, g3))"

text \<open>
  The literal \<^verbatim>\<open>0.1f\<close> is the binary32 value nearest to one tenth, \<open>13421773 / 2 ^ 27\<close>. The
  cast of an integer between -99 and 99 to \<^verbatim>\<open>float\<close> is exact.
\<close>

definition ResetParticle :: "ParticleManager \<Rightarrow> Particle \<Rightarrow> RandomToast \<Rightarrow> Particle \<times> RandomToast" where
  "ResetParticle m resetThis g =
     (let (r1, g1) = RandomPosAndNeg g;
          newX = Fin (real_of_int (c_rem r1 100));
          (r2, g2) = RandomPosAndNeg g1;
          newY = Fin (real_of_int (c_rem r2 100));
          randomVector = normalize (Vec2 newX newY);
          (u, g3) = RandomOnRange0to1 g2;
          radiusVariation = fmul u (Fin (13421773 / 134217728));
          (v, g4) = GetNewVelocityVector m g3
      in (resetThis\<lparr>p_position :=
                       vec4_of (vadd2 (m_center m) (vscale2 randomVector radiusVariation))
                         (Fin 0) (Fin 0),
                     p_velocity := vec4_of v (Fin 0) (Fin 0)\<rparr>,
          g4))"

definition OutOfBounds :: "ParticleManager \<Rightarrow> Particle \<Rightarrow> bool" where
  "OutOfBounds m p =
     (let centerToParticle = vsub4 (p_position p) (vec4_of (m_center m) (Fin 0) (Fin 0));
          distSqr = dot4 centerToParticle centerToParticle
      in if fgt distSqr (m_radiusSqr m) then True else False)"

subsection \<open>The OpenGL context\<close>

text \<open>
  The calls into OpenGL are effects: each one is appended to the log of the context, in
  the order the code issues it. What the driver answers (uniform locations, the names of
  a new buffer and a new vertex array) is part of the context. The \<^verbatim>\<open>printf\<close> lines of
  \<^verbatim>\<open>Init\<close> write to the standard output and are not part of the log.
\<close>

datatype gl_call =
    glDeleteProgram u32
  | glDeleteBuffers nat u32
  | glDeleteVertexArrays nat u32
  | glGetUniformLocation u32 string
  | glUseProgram u32
  | glUniform1f int cfloat
  | glUniform1ui int u32
  | glUniform2fv int nat "cfloat list"
  | glGetIntegeri_v gl_enum u32
  | glGetIntegerv gl_enum
  | glGenBuffers nat
  | glBindBuffer gl_enum u32
  | glBufferData gl_enum nat "Particle list" gl_enum
  | glBindBufferBase gl_enum u32 u32
  | glGenVertexArrays nat
  | glBindVertexArray u32
  | glEnableVertexAttribArray u32
  | glVertexAttribPointer u32 nat gl_enum gl_enum nat nat
  | glDispatchCompute u32 u32 u32
  | glMemoryBarrier gl_enum
  | glDrawArrays gl_enum int int

record GL =
  gl_calls :: "gl_call list"
  gl_uniformLocation :: "u32 \<Rightarrow> string \<Rightarrow> int"
  gl_newBuffer :: u32
  gl_newVertexArray :: u32

definition issue :: "gl_call list \<Rightarrow> GL \<Rightarrow> GL" where
  "issue cs gl = gl\<lparr>gl_calls := gl_calls gl @ cs\<rparr>"

text \<open>
  The sizes that \<^verbatim>\<open>sizeof\<close> gives: a \<^verbatim>\<open>glm::vec4\<close> is four floats of four bytes, and a
  \<^verbatim>\<open>Particle\<close> of the three fields above has 36 bytes.
\<close>

definition sizeof_float :: nat where "sizeof_float = 4"
definition sizeof_int :: nat where "sizeof_int = 4"
definition sizeof_vec4 :: nat where "sizeof_vec4 = 16"
definition sizeof_Particle :: nat where "sizeof_Particle = 36"

subsection \<open>Cleanup\<close>

definition Cleanup :: "ParticleManager \<Rightarrow> GL \<Rightarrow> ParticleManager \<times> GL" where
  "Cleanup m gl =
     (m, issue [glDeleteProgram (m_programId m),
                glDeleteProgram (m_computeProgramId m),
                glDeleteBuffers 1 (m_shaderBufferId m),
                glDeleteVertexArrays 1 (m_vaoId m)] gl)"

subsection \<open>Init\<close>

text \<open>
  \<^verbatim>\<open>std::vector::resize(n)\<close> keeps the first \<open>n\<close> elements and appends value-initialised
  ones up to the size \<open>n\<close>. The value of a value-initialised \<^verbatim>\<open>Particle\<close> is decided by the
  absent header, so it is the parameter \<open>fresh\<close>.
\<close>

definition resize :: "'a list \<Rightarrow> nat \<Rightarrow> 'a \<Rightarrow> 'a list" where
  "resize xs n fresh = take n xs @ replicate (n - length xs) fresh"

text \<open>The loop of lines 94 to 98: \<^verbatim>\<open>ResetParticle\<close> on every element, by index, in place.\<close>

function resetAll :: "ParticleManager \<Rightarrow> nat \<Rightarrow> RandomToast \<Rightarrow> ParticleManager \<times> RandomToast" where
  "resetAll m particleCount g =
     (if particleCount < length (m_allParticles m)
      then (let (p, g') = ResetParticle m (m_allParticles m ! particleCount) g
            in resetAll (m\<lparr>m_allParticles := (m_allParticles m)[particleCount := p]\<rparr>)
                 (Suc particleCount) g')
      else (m, g))"
  by pat_completeness auto
termination
  by (relation "measure (\<lambda>(m, particleCount, g). length (m_allParticles m) - particleCount)") auto

declare resetAll.simps [simp del]

text \<open>The OpenGL calls of lines 100 to 191, for the manager whose members are already set.\<close>

definition Init_gl :: "ParticleManager \<Rightarrow> u32 \<Rightarrow> u32 \<Rightarrow> u32 \<Rightarrow> vec2 \<Rightarrow> gl_call list" where
  "Init_gl m programId numParticles maxParticlesEmittedPerFrame center =
     (let cp = m_computeProgramId m;
          bytesPerStep = sizeof_Particle;
          posItems = sizeof_vec4 div sizeof_float;
          velItems = sizeof_vec4 div sizeof_float;
          actItems = sizeof_int div sizeof_int;
          centerArr = (case center of Vec2 cx cy \<Rightarrow> [cx, cy, Fin 0, Fin 0])
      in [glGetUniformLocation cp ''uDeltaTimeSec'',
          glGetUniformLocation cp ''uRadiusSqr'',
          glGetUniformLocation cp ''uEmitterCenter'',
          glGetUniformLocation cp ''uMmaxParticlesEmittedPerFrame'',
          glGetUniformLocation cp ''uMaxParticleCount'',
          glUseProgram cp,
          glUniform1f (m_unifLocRadiusSqr m) (m_radiusSqr m),
          glUniform1ui (m_unifLocMaxParticlesEmittedPerFrame m) maxParticlesEmittedPerFrame,
          glUniform1ui (m_unifLocMaxParticleCount m) numParticles,
          glUniform2fv (m_unifLocEmitterCenter m) 1 centerArr,
          glGetIntegeri_v GL_MAX_COMPUTE_WORK_GROUP_COUNT 0,
          glGetIntegeri_v GL_MAX_COMPUTE_WORK_GROUP_COUNT 1,
          glGetIntegeri_v GL_MAX_COMPUTE_WORK_GROUP_COUNT 2,
          glGetIntegeri_v GL_MAX_COMPUTE_WORK_GROUP_SIZE 0,
          glGetIntegeri_v GL_MAX_COMPUTE_WORK_GROUP_SIZE 1,
          glGetIntegeri_v GL_MAX_COMPUTE_WORK_GROUP_SIZE 2,
          glGetIntegerv GL_MAX_COMPUTE_LOCAL_INVOCATIONS,
          glUseProgram 0,
          glGenBuffers 1,
          glBindBuffer GL_SHADER_STORAGE_BUFFER (m_shaderBufferId m),
          glBufferData GL_SHADER_STORAGE_BUFFER
            (length (m_allParticles m) * sizeof_Particle) (m_allParticles m) GL_STATIC_DRAW,
          glBindBufferBase GL_SHADER_STORAGE_BUFFER 0 (m_shaderBufferId m),
          glUseProgram programId,
          glGenVertexArrays 1,
          glBindVertexArray (m_vaoId m),
          glBindBuffer GL_ARRAY_BUFFER (m_shaderBufferId m),
          glEnableVertexAttribArray 0,
          glVertexAttribPointer 0 posItems GL_FLOAT GL_FALSE bytesPerStep 0,
          glEnableVertexAttribArray 1,
          glVertexAttribPointer 1 velItems GL_FLOAT GL_FALSE bytesPerStep sizeof_vec4,
          glEnableVertexAttribArray 2,
          glVertexAttribPointer 2 actItems GL_INT GL_FALSE bytesPerStep (sizeof_vec4 + sizeof_vec4),
          glBindVertexArray 0,
          glBindBuffer GL_ARRAY_BUFFER 0,
          glUseProgram 0])"

definition Init ::
  "u32 \<Rightarrow> u32 \<Rightarrow> u32 \<Rightarrow> u32 \<Rightarrow> vec2 \<Rightarrow> cfloat \<Rightarrow> cfloat \<Rightarrow> cfloat \<Rightarrow>
   Particle \<Rightarrow> ParticleManager \<Rightarrow> RandomToast \<Rightarrow> GL \<Rightarrow> ParticleManager \<times> RandomToast \<times> GL" where
  "Init programId computeProgramId numParticles maxParticlesEmittedPerFrame center radius
        minVelocity maxVelocity fresh m g gl =
     (let m1 = m\<lparr>m_programId := programId,
                 m_computeProgramId := computeProgramId,
                 m_allParticles := resize (m_allParticles m) (unat numParticles) fresh,
                 m_sizeBytes := sizeof_Particle * unat numParticles,
                 m_drawStyle := GL_POINTS,
                 m_maxParticlesEmittedPerFrame := maxParticlesEmittedPerFrame,
                 m_center := center,
                 m_radiusSqr := fmul radius radius,
                 m_velocityMin := minVelocity,
                 m_velocityDelta := fsub maxVelocity minVelocity\<rparr>;
          (m2, g') = resetAll m1 0 g;
          m3 = m2\<lparr>m_unifLocDeltaTimeSec := gl_uniformLocation gl computeProgramId ''uDeltaTimeSec'',
                  m_unifLocRadiusSqr := gl_uniformLocation gl computeProgramId ''uRadiusSqr'',
                  m_unifLocEmitterCenter :=
                    gl_uniformLocation gl computeProgramId ''uEmitterCenter'',
                  m_unifLocMaxParticlesEmittedPerFrame :=
                    gl_uniformLocation gl computeProgramId ''uMmaxParticlesEmittedPerFrame'',
                  m_unifLocMaxParticleCount :=
                    gl_uniformLocation gl computeProgramId ''uMaxParticleCount'',
                  m_shaderBufferId := gl_newBuffer gl,
                  m_vaoId := gl_newVertexArray gl\<rparr>
      in (m3, g',
          issue (Init_gl m3 programId numParticles maxParticlesEmittedPerFrame center) gl))"

subsection \<open>Update and Render\<close>

text \<open>
  \<^verbatim>\<open>_allParticles.size() / 256 + 1\<close> is computed in \<^verbatim>\<open>size_t\<close> and stored in a \<^verbatim>\<open>GLuint\<close>,
  which keeps the low 32 bits.
\<close>

definition Update :: "ParticleManager \<Rightarrow> cfloat \<Rightarrow> GL \<Rightarrow> ParticleManager \<times> GL" where
  "Update m deltaTimeSec gl =
     (let numWorkGroupsX = (word_of_nat (length (m_allParticles m) div 256 + 1) :: u32);
          numWorkGroupsY = (1 :: u32);
          numWorkGroupsZ = (1 :: u32)
      in (m, issue [glUseProgram (m_computeProgramId m),
                    glUniform1f (m_unifLocDeltaTimeSec m) deltaTimeSec,
                    glDispatchCompute numWorkGroupsX numWorkGroupsY numWorkGroupsZ,
                    glMemoryBarrier GL_ALL_BARRIER_BITS,
                    glUseProgram 0] gl))"

text \<open>
  The third parameter of \<^verbatim>\<open>glDrawArrays\<close> is a \<^verbatim>\<open>GLsizei\<close>, a signed integer of 32 bits:
  the conversion from \<^verbatim>\<open>size_t\<close> keeps the low 32 bits, read in two's complement.
\<close>

definition Render :: "ParticleManager \<Rightarrow> GL \<Rightarrow> ParticleManager \<times> GL" where
  "Render m gl =
     (m, issue [glUseProgram (m_programId m),
                glBindVertexArray (m_vaoId m),
                glDrawArrays (m_drawStyle m) 0
                  (sint (word_of_nat (length (m_allParticles m)) :: u32)),
                glUseProgram 0] gl)"

text \<open>A frame loop calls \<^verbatim>\<open>Update\<close> and \<^verbatim>\<open>Render\<close> in some order, any number of times.\<close>

datatype frame_call = CallUpdate cfloat | CallRender

fun frame :: "frame_call \<Rightarrow> ParticleManager \<times> GL \<Rightarrow> ParticleManager \<times> GL" where
  "frame (CallUpdate deltaTimeSec) (m, gl) = Update m deltaTimeSec gl"
| "frame CallRender (m, gl) = Render m gl"

fun frames :: "frame_call list \<Rightarrow> ParticleManager \<times> GL \<Rightarrow> ParticleManager \<times> GL" where
  "frames [] s = s"
| "frames (c # cs) s = frames cs (frame c s)"

text \<open>The calls that a step adds to the log of a context that held \<open>gl\<close> before.\<close>

definition issued :: "GL \<Rightarrow> GL \<Rightarrow> gl_call list" where
  "issued gl gl' = drop (length (gl_calls gl)) (gl_calls gl')"

fun is_dispatch :: "gl_call \<Rightarrow> bool" where
  "is_dispatch (glDispatchCompute x y z) = True"
| "is_dispatch _ = False"

fun is_barrier :: "gl_call \<Rightarrow> bool" where
  "is_barrier (glMemoryBarrier b) = True"
| "is_barrier _ = False"

fun is_draw :: "gl_call \<Rightarrow> bool" where
  "is_draw (glDrawArrays mode first count) = True"
| "is_draw _ = False"

subsection \<open>Values for concrete runs\<close>

text \<open>
  One call of \<^verbatim>\<open>ResetParticle\<close> draws four integers and two floats (two and one of them
  inside \<^verbatim>\<open>GetNewVelocityVector\<close>): \<open>rng_after k g\<close> is the generator after \<open>k\<close> such calls.
\<close>

definition rng_after :: "nat \<Rightarrow> RandomToast \<Rightarrow> RandomToast" where
  "rng_after k g = g\<lparr>posAndNeg := sdrop (4 * k) (posAndNeg g),
                     onRange0to1 := sdrop (2 * k) (onRange0to1 g)\<rparr>"

text \<open>
  A manager as the empty constructor leaves it (no particles), a particle of zeros, a
  context with an empty log, and the generator that returns \<open>a\<close>, then \<open>b\<close> for ever, as
  integers and \<open>u\<close> for ever as floats.
\<close>

definition new_ParticleManager :: ParticleManager where
  "new_ParticleManager =
     \<lparr>m_programId = 0, m_computeProgramId = 0, m_allParticles = [], m_sizeBytes = 0,
      m_drawStyle = GL_POINTS, m_maxParticlesEmittedPerFrame = 0,
      m_center = Vec2 (Fin 0) (Fin 0), m_radiusSqr = Fin 0, m_velocityMin = Fin 0,
      m_velocityDelta = Fin 0, m_unifLocDeltaTimeSec = 0, m_unifLocRadiusSqr = 0,
      m_unifLocEmitterCenter = 0, m_unifLocMaxParticlesEmittedPerFrame = 0,
      m_unifLocMaxParticleCount = 0, m_shaderBufferId = 0, m_vaoId = 0\<rparr>"

definition new_Particle :: Particle where
  "new_Particle =
     \<lparr>p_position = Vec4 (Fin 0) (Fin 0) (Fin 0) (Fin 0),
      p_velocity = Vec4 (Fin 0) (Fin 0) (Fin 0) (Fin 0), p_isActive = 0\<rparr>"

definition new_GL :: GL where
  "new_GL = \<lparr>gl_calls = [], gl_uniformLocation = (\<lambda>program name. int (length name)),
             gl_newBuffer = 1, gl_newVertexArray = 1\<rparr>"

definition toast :: "int \<Rightarrow> int \<Rightarrow> real \<Rightarrow> RandomToast" where
  "toast a b u = \<lparr>posAndNeg = a ## sconst b, onRange0to1 = sconst u\<rparr>"

section \<open>Properties\<close>

subsection \<open>The random generators\<close>

lemma RandomPosAndNeg_fst: "fst (RandomPosAndNeg g) = shd (posAndNeg g)"
  by (simp add: RandomPosAndNeg_def)

lemma RandomPosAndNeg_snd: "snd (RandomPosAndNeg g) = g\<lparr>posAndNeg := stl (posAndNeg g)\<rparr>"
  by (simp add: RandomPosAndNeg_def)

lemma RandomOnRange0to1_fst: "fst (RandomOnRange0to1 g) = Fin (shd (onRange0to1 g))"
  by (simp add: RandomOnRange0to1_def)

lemma RandomOnRange0to1_snd: "snd (RandomOnRange0to1 g) = g\<lparr>onRange0to1 := stl (onRange0to1 g)\<rparr>"
  by (simp add: RandomOnRange0to1_def)

lemma GetNewVelocityVector_rng:
  "snd (GetNewVelocityVector m g) =
     g\<lparr>posAndNeg := stl (stl (posAndNeg g)), onRange0to1 := stl (onRange0to1 g)\<rparr>"
  unfolding GetNewVelocityVector_def Let_def split_def
  by (simp add: RandomPosAndNeg_snd RandomOnRange0to1_snd)

lemma ResetParticle_rng: "snd (ResetParticle m p g) = rng_after 1 g"
  unfolding ResetParticle_def Let_def split_def
  by (simp add: RandomPosAndNeg_snd RandomOnRange0to1_snd GetNewVelocityVector_rng
      rng_after_def eval_nat_numeral)

lemma rng_after_0: "rng_after 0 g = g"
  by (simp add: rng_after_def)

lemma rng_after_add: "rng_after j (rng_after k g) = rng_after (k + j) g"
  by (simp add: rng_after_def algebra_simps)

subsection \<open>The loop of Init\<close>

lemma GetNewVelocityVector_cong:
  "m_velocityMin m' = m_velocityMin m \<Longrightarrow> m_velocityDelta m' = m_velocityDelta m \<Longrightarrow>
   GetNewVelocityVector m' g = GetNewVelocityVector m g"
  unfolding GetNewVelocityVector_def by simp

lemma ResetParticle_cong:
  "m_center m' = m_center m \<Longrightarrow> m_velocityMin m' = m_velocityMin m \<Longrightarrow>
   m_velocityDelta m' = m_velocityDelta m \<Longrightarrow> ResetParticle m' p g = ResetParticle m p g"
  unfolding ResetParticle_def by (simp add: GetNewVelocityVector_cong [of m' m])

lemma resetAll_frame:
  "resetAll m i g = (m', g') \<Longrightarrow> m' = m\<lparr>m_allParticles := m_allParticles m'\<rparr>"
proof (induction m i g rule: resetAll.induct)
  case (1 m i g)
  show ?case
  proof (cases "i < length (m_allParticles m)")
    case True
    obtain p g1 where r: "ResetParticle m (m_allParticles m ! i) g = (p, g1)"
      by (cases "ResetParticle m (m_allParticles m ! i) g")
    from "1.prems" True r
    have "resetAll (m\<lparr>m_allParticles := (m_allParticles m)[i := p]\<rparr>) (Suc i) g1 = (m', g')"
      by (simp add: resetAll.simps [of m i g])
    from "1.IH" [OF True r [symmetric] refl this] show ?thesis by simp
  next
    case False
    with "1.prems" show ?thesis by (simp add: resetAll.simps [of m i g])
  qed
qed

lemma resetAll_particles:
  "resetAll m i g = (m', g') \<Longrightarrow>
   length (m_allParticles m') = length (m_allParticles m) \<and>
   (\<forall>j < length (m_allParticles m).
      m_allParticles m' ! j =
        (if j < i then m_allParticles m ! j
         else fst (ResetParticle m (m_allParticles m ! j) (rng_after (j - i) g))))"
proof (induction m i g rule: resetAll.induct)
  case (1 m i g)
  show ?case
  proof (cases "i < length (m_allParticles m)")
    case True
    obtain p g1 where r: "ResetParticle m (m_allParticles m ! i) g = (p, g1)"
      by (cases "ResetParticle m (m_allParticles m ! i) g")
    have g1: "g1 = rng_after 1 g" using ResetParticle_rng [of m "m_allParticles m ! i" g] r by simp
    let ?m1 = "m\<lparr>m_allParticles := (m_allParticles m)[i := p]\<rparr>"
    from "1.prems" True r have "resetAll ?m1 (Suc i) g1 = (m', g')"
      by (simp add: resetAll.simps [of m i g])
    from "1.IH" [OF True r [symmetric] refl this]
    have len: "length (m_allParticles m') = length (m_allParticles m)"
      and el: "\<And>j. j < length (m_allParticles m) \<Longrightarrow>
        m_allParticles m' ! j =
          (if j < Suc i then (m_allParticles m)[i := p] ! j
           else fst (ResetParticle ?m1 ((m_allParticles m)[i := p] ! j) (rng_after (j - Suc i) g1)))"
      by simp_all
    have rp: "\<And>q h. ResetParticle ?m1 q h = ResetParticle m q h"
      by (rule ResetParticle_cong) simp_all
    have "m_allParticles m' ! j =
        (if j < i then m_allParticles m ! j
         else fst (ResetParticle m (m_allParticles m ! j) (rng_after (j - i) g)))"
      if j: "j < length (m_allParticles m)" for j
    proof -
      consider "j < i" | "j = i" | "i < j" by linarith
      then show ?thesis
      proof cases
        case 1 with el [OF j] show ?thesis by simp
      next
        case 2 with el [OF j] j r show ?thesis by (simp add: rng_after_0)
      next
        case 3
        then have "1 + (j - Suc i) = j - i" by simp
        with 3 el [OF j] show ?thesis by (simp add: rp g1 rng_after_add)
      qed
    qed
    with len show ?thesis by simp
  next
    case False
    with "1.prems" show ?thesis by (auto simp add: resetAll.simps [of m i g])
  qed
qed

lemma length_resize: "length (resize xs n fresh) = n"
  by (simp add: resize_def)

lemma Init_manager:
  assumes "Init programId computeProgramId numParticles maxParticlesEmittedPerFrame center radius
             minVelocity maxVelocity fresh m g gl = (m', g', gl')"
  shows "m_programId m' = programId"
    and "m_computeProgramId m' = computeProgramId"
    and "m_drawStyle m' = GL_POINTS"
    and "m_center m' = center"
    and "m_radiusSqr m' = fmul radius radius"
    and "m_velocityMin m' = minVelocity"
    and "m_velocityDelta m' = fsub maxVelocity minVelocity"
    and "m_vaoId m' = gl_newVertexArray gl"
    and "length (m_allParticles m') = unat numParticles"
    and "\<forall>i < unat numParticles. m_allParticles m' ! i =
           fst (ResetParticle m' (resize (m_allParticles m) (unat numParticles) fresh ! i)
                  (rng_after i g))"
proof -
  define m1 where "m1 = m\<lparr>m_programId := programId,
                 m_computeProgramId := computeProgramId,
                 m_allParticles := resize (m_allParticles m) (unat numParticles) fresh,
                 m_sizeBytes := sizeof_Particle * unat numParticles,
                 m_drawStyle := GL_POINTS,
                 m_maxParticlesEmittedPerFrame := maxParticlesEmittedPerFrame,
                 m_center := center,
                 m_radiusSqr := fmul radius radius,
                 m_velocityMin := minVelocity,
                 m_velocityDelta := fsub maxVelocity minVelocity\<rparr>"
  obtain m2 g2 where r: "resetAll m1 0 g = (m2, g2)"
    by (cases "resetAll m1 0 g")
  have m2: "m2 = m1\<lparr>m_allParticles := m_allParticles m2\<rparr>"
    by (rule resetAll_frame [OF r])
  have m': "m' = m2\<lparr>m_unifLocDeltaTimeSec := gl_uniformLocation gl computeProgramId ''uDeltaTimeSec'',
                  m_unifLocRadiusSqr := gl_uniformLocation gl computeProgramId ''uRadiusSqr'',
                  m_unifLocEmitterCenter :=
                    gl_uniformLocation gl computeProgramId ''uEmitterCenter'',
                  m_unifLocMaxParticlesEmittedPerFrame :=
                    gl_uniformLocation gl computeProgramId ''uMmaxParticlesEmittedPerFrame'',
                  m_unifLocMaxParticleCount :=
                    gl_uniformLocation gl computeProgramId ''uMaxParticleCount'',
                  m_shaderBufferId := gl_newBuffer gl,
                  m_vaoId := gl_newVertexArray gl\<rparr>"
    using assms r unfolding Init_def Let_def m1_def [symmetric] by simp
  have f1: "m_programId m2 = programId" "m_computeProgramId m2 = computeProgramId"
    "m_drawStyle m2 = GL_POINTS" "m_center m2 = center" "m_radiusSqr m2 = fmul radius radius"
    "m_velocityMin m2 = minVelocity" "m_velocityDelta m2 = fsub maxVelocity minVelocity"
    by (subst m2, simp add: m1_def)+
  show "m_programId m' = programId" "m_computeProgramId m' = computeProgramId"
    "m_drawStyle m' = GL_POINTS" "m_center m' = center" "m_radiusSqr m' = fmul radius radius"
    "m_velocityMin m' = minVelocity" "m_velocityDelta m' = fsub maxVelocity minVelocity"
    "m_vaoId m' = gl_newVertexArray gl"
    by (simp_all add: m' f1)
  have ps1: "m_allParticles m1 = resize (m_allParticles m) (unat numParticles) fresh"
    by (simp add: m1_def)
  have ps': "m_allParticles m' = m_allParticles m2" by (simp add: m')
  from resetAll_particles [OF r] ps1
  have len: "length (m_allParticles m2) = unat numParticles"
    and el: "\<And>j. j < unat numParticles \<Longrightarrow>
       m_allParticles m2 ! j =
         fst (ResetParticle m1 (resize (m_allParticles m) (unat numParticles) fresh ! j)
                (rng_after j g))"
    by (simp_all add: length_resize)
  show "length (m_allParticles m') = unat numParticles" by (simp add: ps' len)
  have rp: "\<And>q h. ResetParticle m' q h = ResetParticle m1 q h"
    by (rule ResetParticle_cong) (simp_all add: m' f1, simp_all add: m1_def)
  show "\<forall>i < unat numParticles. m_allParticles m' ! i =
           fst (ResetParticle m' (resize (m_allParticles m) (unat numParticles) fresh ! i)
                  (rng_after i g))"
    by (simp add: ps' el rp)
qed

subsection \<open>Rounding\<close>

lemma round_even_error: "\<bar>real_of_int (round_even q) - q\<bar> \<le> 1 / 2"
proof -
  have "real_of_int \<lfloor>q\<rfloor> \<le> q" and "q < real_of_int \<lfloor>q\<rfloor> + 1" by linarith+
  then show ?thesis unfolding round_even_def Let_def by (auto simp: abs_le_iff)
qed

lemma round_even_of_int: "round_even (real_of_int j) = j"
  by (simp add: round_even_def)

lemma ulp_pos: "0 < ulp x"
  by (simp add: ulp_def)

lemma ulp_half_bound:
  assumes "x \<noteq> 0"
  shows "ulp x / 2 \<le> \<bar>x\<bar> / 2 ^ 24 + 1 / 2 ^ 150"
proof (cases "- 126 \<le> \<lfloor>log 2 \<bar>x\<bar>\<rfloor>")
  case True
  then have e: "expo x = \<lfloor>log 2 \<bar>x\<bar>\<rfloor>" by (simp add: expo_def)
  have "real_of_int (expo x) \<le> log 2 \<bar>x\<bar>" unfolding e by linarith
  then have "2 powr real_of_int (expo x) \<le> 2 powr log 2 \<bar>x\<bar>" by (simp add: powr_le_cancel_iff)
  also have "\<dots> = \<bar>x\<bar>" using assms by simp
  finally have le: "2 powr real_of_int (expo x) \<le> \<bar>x\<bar>" .
  have "ulp x = 2 powr real_of_int (expo x) / 2 ^ 23"
    by (simp add: ulp_def powr_diff)
  then have "ulp x / 2 = 2 powr real_of_int (expo x) / 2 ^ 24" by simp
  also have "\<dots> \<le> \<bar>x\<bar> / 2 ^ 24" using le by (simp add: divide_right_mono)
  finally show ?thesis by simp
next
  case False
  then have e: "expo x = - 126" by (simp add: expo_def)
  have "ulp x = 2 powr (- 149)" by (simp add: ulp_def e)
  also have "\<dots> = 1 / 2 ^ 149" by (simp add: powr_minus_divide)
  finally have "ulp x / 2 = 1 / 2 ^ 150" by simp
  then show ?thesis by simp
qed

lemma round32_error:
  assumes "\<bar>x\<bar> \<le> 2 ^ 127"
  shows "\<exists>y. round32 x = Fin y \<and> \<bar>y - x\<bar> \<le> \<bar>x\<bar> / 2 ^ 24 + 1 / 2 ^ 150"
proof (cases "x = 0")
  case True
  then show ?thesis by (simp add: round32_def)
next
  case False
  define y where "y = real_of_int (round_even (x / ulp x)) * ulp x"
  have "y - x = (real_of_int (round_even (x / ulp x)) - x / ulp x) * ulp x"
    using ulp_pos [of x] by (simp add: y_def algebra_simps)
  then have "\<bar>y - x\<bar> = \<bar>real_of_int (round_even (x / ulp x)) - x / ulp x\<bar> * \<bar>ulp x\<bar>"
    by (simp only: abs_mult)
  also have "\<bar>ulp x\<bar> = ulp x" using ulp_pos [of x] by simp
  finally have "\<bar>y - x\<bar> = \<bar>real_of_int (round_even (x / ulp x)) - x / ulp x\<bar> * ulp x" .
  also have "\<dots> \<le> 1 / 2 * ulp x"
    using round_even_error [of "x / ulp x"] ulp_pos [of x] by (intro mult_right_mono) simp_all
  finally have err: "\<bar>y - x\<bar> \<le> ulp x / 2" by simp
  also have "\<dots> \<le> \<bar>x\<bar> / 2 ^ 24 + 1 / 2 ^ 150" by (rule ulp_half_bound [OF False])
  finally have b: "\<bar>y - x\<bar> \<le> \<bar>x\<bar> / 2 ^ 24 + 1 / 2 ^ 150" .
  have "\<bar>y\<bar> \<le> \<bar>x\<bar> + \<bar>y - x\<bar>" by linarith
  also have "\<dots> \<le> \<bar>x\<bar> + (\<bar>x\<bar> / 2 ^ 24 + 1 / 2 ^ 150)" using b by linarith
  also have "\<dots> \<le> 2 ^ 127 + (2 ^ 127 / 2 ^ 24 + 1 / 2 ^ 150)"
    using assms by (intro add_mono divide_right_mono) simp_all
  also have "\<dots> < 2 ^ 128" by simp
  finally have "\<not> 2 ^ 128 \<le> \<bar>y\<bar>" by simp
  then have "round32 x = Fin y" using False by (simp add: round32_def y_def Let_def)
  with b show ?thesis by blast
qed

lemma round32_cases:
  "x \<noteq> 0 \<Longrightarrow>
   round32 x = Fin (real_of_int (round_even (x / ulp x)) * ulp x) \<or> round32 x = PInf
   \<or> round32 x = NInf"
  by (simp add: round32_def Let_def)

lemma round32_at:
  assumes "2 powr real_of_int e \<le> \<bar>x\<bar>" and "\<bar>x\<bar> < 2 powr (real_of_int e + 1)"
    and "- 126 \<le> e" and "e \<le> 126"
  shows "round32 x =
           Fin (real_of_int (round_even (x / 2 powr (real_of_int e - 23)))
                * 2 powr (real_of_int e - 23))"
proof -
  have pos: "0 < \<bar>x\<bar>" using assms(1) by (rule less_le_trans [rotated]) simp
  then have nz: "x \<noteq> 0" by simp
  have "\<lfloor>log 2 \<bar>x\<bar>\<rfloor> = e"
    using assms(1,2) pos by (subst floor_log_eq_powr_iff) simp_all
  then have "expo x = e" using assms(3) by (simp add: expo_def)
  then have u: "ulp x = 2 powr (real_of_int e - 23)" by (simp add: ulp_def)
  have "real_of_int e + 1 \<le> 127" using assms(4) by simp
  then have "2 powr (real_of_int e + 1) \<le> 2 powr (127 :: real)"
    by (rule powr_mono) simp
  also have "2 powr (127 :: real) = 2 ^ 127" by simp
  finally have "\<bar>x\<bar> \<le> 2 ^ 127" using assms(2) by linarith
  from round32_error [OF this] obtain y where "round32 x = Fin y" by blast
  with round32_cases [OF nz] show ?thesis by (simp add: u)
qed

lemma round32_exact:
  assumes x: "x = real_of_int m * 2 powr real_of_int k"
    and m: "\<bar>m\<bar> < 2 ^ 24" and k: "- 149 \<le> k" "k \<le> 104"
  shows "round32 x = Fin x"
proof (cases "m = 0")
  case True
  then show ?thesis by (simp add: x round32_def)
next
  case False
  have ax: "\<bar>x\<bar> = real_of_int \<bar>m\<bar> * 2 powr real_of_int k" by (simp add: x abs_mult)
  have pos: "0 < \<bar>x\<bar>" using False by (simp add: x)
  then have nz: "x \<noteq> 0" by simp
  have mr: "real_of_int \<bar>m\<bar> < 2 ^ 24"
  proof -
    have "real_of_int \<bar>m\<bar> < real_of_int (2 ^ 24)" using m by (simp only: of_int_less_iff)
    then show ?thesis by simp
  qed
  define L where "L = \<lfloor>log 2 \<bar>x\<bar>\<rfloor>"
  have "real_of_int L \<le> log 2 \<bar>x\<bar>" unfolding L_def by linarith
  then have "2 powr real_of_int L \<le> 2 powr log 2 \<bar>x\<bar>" by (simp add: powr_le_cancel_iff)
  also have "\<dots> = \<bar>x\<bar>" using pos by simp
  also have "\<dots> < 2 ^ 24 * 2 powr real_of_int k"
    unfolding ax using mr by (intro mult_strict_right_mono) simp_all
  also have "\<dots> = 2 powr (24 + real_of_int k)" by (simp add: powr_add)
  finally have "real_of_int L < 24 + real_of_int k" by (simp add: powr_less_cancel_iff)
  then have Lk: "L - 23 \<le> k" by linarith
  define d where "d = k - (expo x - 23)"
  have d0: "0 \<le> d" using Lk k(1) by (simp add: d_def expo_def L_def)
  have "x / ulp x = real_of_int m * (2 powr real_of_int k / 2 powr (real_of_int (expo x) - 23))"
    by (simp add: x ulp_def)
  also have "2 powr real_of_int k / 2 powr (real_of_int (expo x) - 23) = 2 powr real_of_int d"
    by (simp add: d_def powr_diff [symmetric])
  also have "\<dots> = 2 ^ nat d" using d0 by (simp add: powr_real_of_int)
  finally have "x / ulp x = real_of_int (m * 2 ^ nat d)" by simp
  then have "real_of_int (round_even (x / ulp x)) = x / ulp x"
    by (simp only: round_even_of_int)
  then have y: "real_of_int (round_even (x / ulp x)) * ulp x = x"
    using ulp_pos [of x] by simp
  have "\<bar>x\<bar> < 2 ^ 24 * 2 powr real_of_int k" unfolding ax
    using mr by (intro mult_strict_right_mono) simp_all
  also have "\<dots> \<le> 2 ^ 24 * 2 powr (104 :: real)"
  proof -
    have "real_of_int k \<le> 104" using k(2) by simp
    then have "2 powr real_of_int k \<le> 2 powr (104 :: real)" by (rule powr_mono) simp
    then show ?thesis by (rule mult_left_mono) simp
  qed
  also have "2 ^ 24 * 2 powr (104 :: real) = (2 ^ 128 :: real)" by simp
  finally have "\<not> 2 ^ 128 \<le> \<bar>x\<bar>" by simp
  then show ?thesis using nz by (simp add: round32_def Let_def y)
qed

lemma round32_of_int:
  assumes "\<bar>n\<bar> < 2 ^ 24"
  shows "round32 (real_of_int n) = Fin (real_of_int n)"
  using round32_exact [of "real_of_int n" n 0] assms by simp

lemma round32_0: "round32 0 = Fin 0"
  by (simp add: round32_def)

lemma round32_1: "round32 1 = Fin 1"
  using round32_of_int [of 1] by simp

lemma round32_tenth: "round32 (13421773 / 134217728) = Fin (13421773 / 134217728)"
  using round32_exact [of "13421773 / 134217728" 13421773 "- 27"] by (simp add: powr_minus_divide)

lemma round32_2m13: "round32 (1 / 8192) = Fin (1 / 8192)"
  using round32_exact [of "1 / 8192" 1 "- 13"] by (simp add: powr_minus_divide)

lemma round32_2m26: "round32 (1 / 67108864) = Fin (1 / 67108864)"
  using round32_exact [of "1 / 67108864" 1 "- 26"] by (simp add: powr_minus_divide)

lemma round32_1_2m26: "round32 (67108865 / 67108864) = Fin 1"
  using round32_at [of 0 "67108865 / 67108864"] by (simp add: powr_minus_divide round_even_def)

lemma round32_tenth_sq:
  "round32 (180143990463529 / 18014398509481984) = Fin (10737419 / 1073741824)"
  using round32_at [of "- 7" "180143990463529 / 18014398509481984"]
  by (simp add: powr_minus_divide round_even_def)

lemma round32_tenth_sq_exact: "round32 (10737419 / 1073741824) = Fin (10737419 / 1073741824)"
  using round32_exact [of "10737419 / 1073741824" 10737419 "- 30"]
  by (simp add: powr_minus_divide)

lemma round32_1024th: "round32 (1 / 1024) = Fin (1 / 1024)"
  using round32_exact [of "1 / 1024" 1 "- 10"] by (simp add: powr_minus_divide)

lemma fsub_NaN: "fsub NaN y = NaN" "fsub x NaN = NaN"
  by (cases x; simp)+

lemma fgt_NaN: "\<not> fgt NaN y" "\<not> fgt x NaN"
  by (cases x; simp)+

lemma fadd_NaN_right: "fadd x NaN = NaN"
  by (cases x) simp_all

lemma fmul_NaN_right: "fmul x NaN = NaN"
  by (cases x) simp_all

subsection \<open>Directions\<close>

lemma GetNewVelocityVector_fst:
  "fst (GetNewVelocityVector m g) =
     vscale2 (normalize (Vec2 (Fin (real_of_int (c_rem (shd (posAndNeg g)) 100)))
                              (Fin (real_of_int (c_rem (shd (stl (posAndNeg g))) 100)))))
       (fadd (m_velocityMin m) (fmul (Fin (shd (onRange0to1 g))) (m_velocityDelta m)))"
  unfolding GetNewVelocityVector_def Let_def split_def
  by (simp add: RandomPosAndNeg_fst RandomPosAndNeg_snd RandomOnRange0to1_fst)

lemma ResetParticle_fst:
  "fst (ResetParticle m p g) =
     p\<lparr>p_position :=
         vec4_of (vadd2 (m_center m)
                    (vscale2 (normalize (Vec2 (Fin (real_of_int (c_rem (shd (posAndNeg g)) 100)))
                                 (Fin (real_of_int (c_rem (shd (stl (posAndNeg g))) 100)))))
                       (fmul (Fin (shd (onRange0to1 g))) (Fin (13421773 / 134217728)))))
           (Fin 0) (Fin 0),
       p_velocity :=
         vec4_of (fst (GetNewVelocityVector m
                         (g\<lparr>posAndNeg := stl (stl (posAndNeg g)),
                            onRange0to1 := stl (onRange0to1 g)\<rparr>)))
           (Fin 0) (Fin 0)\<rparr>"
  unfolding ResetParticle_def Let_def split_def
  by (simp add: RandomPosAndNeg_fst RandomPosAndNeg_snd RandomOnRange0to1_fst
      RandomOnRange0to1_snd)

text \<open>
  When both remainders are zero the direction is the zero vector: its dot product with
  itself is 0, the inverse square root is \<open>+inf\<close>, and each component \<open>0 * inf\<close> is not a
  number, in the velocity and in the position.
\<close>

lemma normalize_zero: "normalize (Vec2 (Fin 0) (Fin 0)) = Vec2 NaN NaN"
  by (simp add: normalize_def inversesqrt_def round32_0)

lemma zero_direction_velocity:
  "c_rem (shd (posAndNeg g)) 100 = 0 \<Longrightarrow> c_rem (shd (stl (posAndNeg g))) 100 = 0 \<Longrightarrow>
   fst (GetNewVelocityVector m g) = Vec2 NaN NaN"
  by (simp add: GetNewVelocityVector_fst normalize_zero)

lemma zero_direction_position:
  "c_rem (shd (posAndNeg g)) 100 = 0 \<Longrightarrow> c_rem (shd (stl (posAndNeg g))) 100 = 0 \<Longrightarrow>
   p_position (fst (ResetParticle m p g)) = Vec4 NaN NaN (Fin 0) (Fin 0)"
  by (cases "m_center m") (simp add: ResetParticle_fst normalize_zero fadd_NaN_right)

subsection \<open>The rounding errors of a reset\<close>

lemma norm2_perturbed:
  fixes a b e1 e2 :: real
  shows "sqrt ((a + e1)\<^sup>2 + (b + e2)\<^sup>2) \<le> sqrt (a\<^sup>2 + b\<^sup>2) + \<bar>e1\<bar> + \<bar>e2\<bar>"
proof -
  have "sqrt ((a + e1)\<^sup>2 + (b + e2)\<^sup>2) \<le> sqrt (a\<^sup>2 + b\<^sup>2) + sqrt (e1\<^sup>2 + e2\<^sup>2)"
    by (rule real_sqrt_sum_squares_triangle_ineq)
  also have "sqrt (e1\<^sup>2 + e2\<^sup>2) \<le> \<bar>e1\<bar> + \<bar>e2\<bar>" by (rule sqrt_sum_squares_le_sum_abs)
  finally show ?thesis by simp
qed

lemma norm2_scaled:
  fixes a b r :: real
  shows "sqrt ((a * r)\<^sup>2 + (b * r)\<^sup>2) = \<bar>r\<bar> * sqrt (a\<^sup>2 + b\<^sup>2)"
proof -
  have "(a * r)\<^sup>2 + (b * r)\<^sup>2 = r\<^sup>2 * (a\<^sup>2 + b\<^sup>2)" by (simp add: power2_eq_square algebra_simps)
  then show ?thesis by (simp add: real_sqrt_mult)
qed

lemma abs_le_norm2:
  fixes a b :: real
  shows "\<bar>a\<bar> \<le> sqrt (a\<^sup>2 + b\<^sup>2)" and "\<bar>b\<bar> \<le> sqrt (a\<^sup>2 + b\<^sup>2)"
proof -
  have "sqrt (a\<^sup>2) \<le> sqrt (a\<^sup>2 + b\<^sup>2)" by (rule real_sqrt_le_mono) simp
  then show "\<bar>a\<bar> \<le> sqrt (a\<^sup>2 + b\<^sup>2)" by simp
  have "sqrt (b\<^sup>2) \<le> sqrt (a\<^sup>2 + b\<^sup>2)" by (rule real_sqrt_le_mono) simp
  then show "\<bar>b\<bar> \<le> sqrt (a\<^sup>2 + b\<^sup>2)" by simp
qed

lemma c_rem_100_bound: "\<bar>c_rem a 100\<bar> \<le> 99"
proof -
  have "\<bar>a\<bar> mod 100 < 100" by simp
  then have m: "\<bar>a\<bar> mod 100 \<le> 99" by linarith
  have "0 \<le> \<bar>a\<bar> mod 100" by simp
  have "\<bar>c_rem a 100\<bar> = \<bar>sgn a\<bar> * (\<bar>a\<bar> mod 100)"
    by (simp add: c_rem_def abs_mult)
  also have "\<dots> \<le> 1 * (\<bar>a\<bar> mod 100)" by (intro mult_right_mono) (simp_all add: abs_sgn_eq)
  finally show ?thesis using m by simp
qed

lemma fmul_error:
  assumes "\<bar>a * b\<bar> \<le> 2 ^ 127"
  shows "\<exists>z. fmul (Fin a) (Fin b) = Fin z \<and> \<bar>z - a * b\<bar> \<le> \<bar>a * b\<bar> / 2 ^ 24 + 1 / 2 ^ 150"
  using round32_error [OF assms] by simp

lemma fadd_error:
  assumes "\<bar>a + b\<bar> \<le> 2 ^ 127"
  shows "\<exists>z. fadd (Fin a) (Fin b) = Fin z \<and> \<bar>z - (a + b)\<bar> \<le> \<bar>a + b\<bar> / 2 ^ 24 + 1 / 2 ^ 150"
  using round32_error [OF assms] by simp

text \<open>The dot product of an integer direction with itself is computed without rounding.\<close>

lemma dot2_direction:
  assumes "\<bar>X\<bar> \<le> 99" and "\<bar>Y\<bar> \<le> 99"
  shows "dot2 (Vec2 (Fin (real_of_int X)) (Fin (real_of_int Y)))
              (Vec2 (Fin (real_of_int X)) (Fin (real_of_int Y)))
         = Fin (real_of_int (X * X + Y * Y))"
proof -
  have "\<bar>X\<bar> * \<bar>X\<bar> \<le> 99 * 99" using assms(1) by (intro mult_mono) simp_all
  then have xx: "\<bar>X * X\<bar> \<le> 99 * 99" by (simp only: abs_mult)
  have "\<bar>Y\<bar> * \<bar>Y\<bar> \<le> 99 * 99" using assms(2) by (intro mult_mono) simp_all
  then have yy: "\<bar>Y * Y\<bar> \<le> 99 * 99" by (simp only: abs_mult)
  have 1: "round32 (real_of_int X * real_of_int X) = Fin (real_of_int (X * X))"
    using round32_of_int [of "X * X"] xx by simp
  have 2: "round32 (real_of_int Y * real_of_int Y) = Fin (real_of_int (Y * Y))"
    using round32_of_int [of "Y * Y"] yy by simp
  have "\<bar>X * X + Y * Y\<bar> \<le> 99 * 99 + 99 * 99" using xx yy by linarith
  then have 3: "round32 (real_of_int (X * X) + real_of_int (Y * Y)) = Fin (real_of_int (X * X + Y * Y))"
    using round32_of_int [of "X * X + Y * Y"] by simp
  show ?thesis by (simp only: dot2.simps fmul.simps(1) fadd.simps(1) 1 2 3)
qed

text \<open>
  The computed unit direction: the square root, the reciprocal and the two products are
  rounded, and the result has a magnitude of at most \<open>1 + 1 / 2 ^ 21\<close>.
\<close>

lemma normalize_bound:
  assumes X: "\<bar>X\<bar> \<le> 99" and Y: "\<bar>Y\<bar> \<le> 99" and nz: "X \<noteq> 0 \<or> Y \<noteq> 0"
  shows "\<exists>nx ny. normalize (Vec2 (Fin (real_of_int X)) (Fin (real_of_int Y)))
                     = Vec2 (Fin nx) (Fin ny)
                 \<and> sqrt (nx\<^sup>2 + ny\<^sup>2) \<le> 1 + 1 / 2 ^ 21"
proof -
  let ?x = "real_of_int X" and ?y = "real_of_int Y"
  define D where "D = real_of_int (X * X + Y * Y)"
  have "0 < X * X + Y * Y" using nz by (simp add: sum_squares_gt_zero_iff)
  then have "1 \<le> X * X + Y * Y" by linarith
  then have D1: "1 \<le> D" unfolding D_def by linarith
  have "\<bar>X\<bar> * \<bar>X\<bar> \<le> 99 * 99" using X by (intro mult_mono) simp_all
  moreover have "\<bar>Y\<bar> * \<bar>Y\<bar> \<le> 99 * 99" using Y by (intro mult_mono) simp_all
  ultimately have "X * X + Y * Y \<le> 19602" by (simp add: abs_mult_self_eq)
  then have D2: "D \<le> 19602" unfolding D_def by linarith
  have Dxy: "D = ?x\<^sup>2 + ?y\<^sup>2" by (simp add: D_def power2_eq_square)
  have dot: "dot2 (Vec2 (Fin ?x) (Fin ?y)) (Vec2 (Fin ?x) (Fin ?y)) = Fin D"
    unfolding D_def by (rule dot2_direction [OF X Y])
  define r where "r = sqrt D"
  have r1: "1 \<le> r" unfolding r_def using D1 by (rule real_sqrt_ge_one)
  have r141: "r \<le> 141" unfolding r_def using D2 by (intro real_le_lsqrt) simp_all
  have "\<bar>r\<bar> \<le> 2 ^ 127" using r1 r141 by simp
  from round32_error [OF this] obtain s where
    s: "round32 r = Fin s" and se: "\<bar>s - r\<bar> \<le> \<bar>r\<bar> / 2 ^ 24 + 1 / 2 ^ 150"
    by blast
  have sq: "fsqrt (Fin D) = Fin s" using D1 s by (simp add: r_def)
  have s_lo: "r * (1 - 1 / 2 ^ 23) \<le> s" using se r1 by (simp add: abs_le_iff algebra_simps)
  have c_pos: "(0 :: real) < 1 - 1 / 2 ^ 23" by simp
  have "0 < r * (1 - 1 / 2 ^ 23)" using r1 c_pos by (intro mult_pos_pos) simp_all
  then have s_pos: "0 < s" using s_lo by linarith
  have rs: "r / s \<le> 1 / (1 - 1 / 2 ^ 23)"
  proof -
    have "r / s \<le> r / (r * (1 - 1 / 2 ^ 23))"
      using s_lo s_pos r1 c_pos by (intro divide_left_mono mult_pos_pos) simp_all
    also have "\<dots> = 1 / (1 - 1 / 2 ^ 23)" using r1 by simp
    finally show ?thesis .
  qed
  have "1 / s \<le> r / s" using r1 s_pos by (simp add: divide_right_mono)
  also have "\<dots> \<le> 1 / (1 - 1 / 2 ^ 23)" by (rule rs)
  also have "\<dots> \<le> 2" by simp
  finally have is2: "1 / s \<le> 2" .
  have is0: "0 < 1 / s" using s_pos by simp
  have "\<bar>1 / s\<bar> \<le> 2 ^ 127" using is0 is2 by simp
  from round32_error [OF this] obtain inv where
    inv: "round32 (1 / s) = Fin inv" and ie: "\<bar>inv - 1 / s\<bar> \<le> \<bar>1 / s\<bar> / 2 ^ 24 + 1 / 2 ^ 150"
    by blast
  have "fdiv (Fin 1) (Fin s) = Fin inv" using s_pos inv by simp
  then have isq: "inversesqrt (Fin D) = Fin inv" by (simp only: inversesqrt_def sq)
  have "\<bar>inv\<bar> \<le> 1 / s + (1 / s / 2 ^ 24 + 1 / 2 ^ 150)" using ie is0 by linarith
  then have "\<bar>inv\<bar> * r \<le> (1 / s + (1 / s / 2 ^ 24 + 1 / 2 ^ 150)) * r"
    using r1 by (intro mult_right_mono) simp_all
  also have "\<dots> = r / s * (1 + 1 / 2 ^ 24) + r / 2 ^ 150" by (simp add: algebra_simps)
  also have "\<dots> \<le> 1 / (1 - 1 / 2 ^ 23) * (1 + 1 / 2 ^ 24) + 141 / 2 ^ 150"
    using rs r141 by (intro add_mono mult_right_mono divide_right_mono) simp_all
  also have "\<dots> \<le> 1 + 1 / 2 ^ 22" by simp
  finally have Q: "\<bar>inv\<bar> * r \<le> 1 + 1 / 2 ^ 22" .
  have norm0: "sqrt ((?x * inv)\<^sup>2 + (?y * inv)\<^sup>2) = \<bar>inv\<bar> * r"
    by (simp add: norm2_scaled r_def Dxy)
  have xi: "\<bar>?x * inv\<bar> \<le> \<bar>inv\<bar> * r"
    using abs_le_norm2(1) [where a = "?x * inv" and b = "?y * inv"] by (simp only: norm0)
  have yi: "\<bar>?y * inv\<bar> \<le> \<bar>inv\<bar> * r"
    using abs_le_norm2(2) [where a = "?x * inv" and b = "?y * inv"] by (simp only: norm0)
  have "\<bar>?x * inv\<bar> \<le> 2 ^ 127" using xi Q by simp
  from fmul_error [OF this] obtain nx where
    nx: "fmul (Fin ?x) (Fin inv) = Fin nx"
    and nxe: "\<bar>nx - ?x * inv\<bar> \<le> \<bar>?x * inv\<bar> / 2 ^ 24 + 1 / 2 ^ 150"
    by blast
  have "\<bar>?y * inv\<bar> \<le> 2 ^ 127" using yi Q by simp
  from fmul_error [OF this] obtain ny where
    ny: "fmul (Fin ?y) (Fin inv) = Fin ny"
    and nye: "\<bar>ny - ?y * inv\<bar> \<le> \<bar>?y * inv\<bar> / 2 ^ 24 + 1 / 2 ^ 150"
    by blast
  have n: "normalize (Vec2 (Fin ?x) (Fin ?y)) = Vec2 (Fin nx) (Fin ny)"
    by (simp only: normalize_def dot isq vscale2.simps nx ny)
  have "sqrt (nx\<^sup>2 + ny\<^sup>2)
        = sqrt ((?x * inv + (nx - ?x * inv))\<^sup>2 + (?y * inv + (ny - ?y * inv))\<^sup>2)"
    by simp
  also have "\<dots> \<le> sqrt ((?x * inv)\<^sup>2 + (?y * inv)\<^sup>2) + \<bar>nx - ?x * inv\<bar> + \<bar>ny - ?y * inv\<bar>"
    by (rule norm2_perturbed)
  also have "\<dots> \<le> \<bar>inv\<bar> * r + (\<bar>inv\<bar> * r / 2 ^ 24 + 1 / 2 ^ 150)
                   + (\<bar>inv\<bar> * r / 2 ^ 24 + 1 / 2 ^ 150)"
    using nxe nye xi yi unfolding norm0 by (intro add_mono) simp_all
  also have "\<dots> \<le> (1 + 1 / 2 ^ 22) + ((1 + 1 / 2 ^ 22) / 2 ^ 24 + 1 / 2 ^ 150)
                   + ((1 + 1 / 2 ^ 22) / 2 ^ 24 + 1 / 2 ^ 150)"
    using Q by (intro add_mono divide_right_mono) simp_all
  also have "\<dots> \<le> 1 + 1 / 2 ^ 21" by simp
  finally have "sqrt (nx\<^sup>2 + ny\<^sup>2) \<le> 1 + 1 / 2 ^ 21" .
  with n show ?thesis by blast
qed

subsection \<open>The rounding errors of the squared distance\<close>

lemma fsub_error:
  assumes "\<bar>a - b\<bar> \<le> 2 ^ 127"
  shows "\<exists>z. fsub (Fin a) (Fin b) = Fin z \<and> \<bar>z - (a - b)\<bar> \<le> \<bar>a - b\<bar> / 2 ^ 24 + 1 / 2 ^ 150"
  using round32_error [OF assms] by simp

text \<open>A rounded difference, squared and rounded again, against the exact square.\<close>

lemma square_error:
  fixes D d s :: real
  assumes D: "\<bar>D\<bar> \<le> 4"
    and d: "\<bar>d - D\<bar> \<le> \<bar>D\<bar> / 2 ^ 24 + 1 / 2 ^ 150"
    and s: "\<bar>s - d * d\<bar> \<le> \<bar>d * d\<bar> / 2 ^ 24 + 1 / 2 ^ 150"
  shows "\<bar>s - D * D\<bar> \<le> D * D / 2 ^ 22 + 1 / 2 ^ 146"
proof -
  define a where "a = \<bar>D\<bar>"
  define A where "A = D * D"
  define t where "t = a / 2 ^ 24 + 1 / 2 ^ 150"
  define e where "e = d - D"
  have a0: "0 \<le> a" and a4: "a \<le> 4" using D by (simp_all add: a_def)
  have A: "A = a * a" by (simp add: A_def a_def)
  have A0: "0 \<le> A" by (simp add: A_def)
  have t0: "0 \<le> t" using a0 by (simp add: t_def)
  have e: "\<bar>e\<bar> \<le> t" using d by (simp add: e_def t_def a_def)
  have ta: "a * t = A / 2 ^ 24 + a / 2 ^ 150" by (simp add: t_def A algebra_simps)
  have tt: "t * t = A / 2 ^ 48 + a / 2 ^ 173 + 1 / 2 ^ 300"
    by (simp add: t_def A algebra_simps)
  have "\<bar>D * e\<bar> = a * \<bar>e\<bar>" by (simp add: abs_mult a_def)
  also have "\<dots> \<le> a * t" using e a0 by (rule mult_left_mono)
  finally have De: "\<bar>D * e\<bar> \<le> A / 2 ^ 24 + a / 2 ^ 150" by (simp only: ta)
  have "e * e = \<bar>e\<bar> * \<bar>e\<bar>" by simp
  also have "\<dots> \<le> t * t" using e by (intro mult_mono) simp_all
  finally have ee: "e * e \<le> A / 2 ^ 48 + a / 2 ^ 173 + 1 / 2 ^ 300" by (simp only: tt)
  have ee0: "0 \<le> e * e" by simp
  have dd: "d * d = A + 2 * (D * e) + e * e" by (simp add: e_def A_def algebra_simps)
  have dd0: "0 \<le> d * d" by simp
  have "\<bar>d * d - A\<bar> \<le> 2 * \<bar>D * e\<bar> + e * e" unfolding dd using ee0 by linarith
  then have ddA: "\<bar>d * d - A\<bar> \<le> 2 * (A / 2 ^ 24 + a / 2 ^ 150)
                                + (A / 2 ^ 48 + a / 2 ^ 173 + 1 / 2 ^ 300)"
    using De ee by simp
  have "\<bar>s - A\<bar> \<le> \<bar>s - d * d\<bar> + \<bar>d * d - A\<bar>" by linarith
  also have "\<dots> \<le> (d * d / 2 ^ 24 + 1 / 2 ^ 150) + \<bar>d * d - A\<bar>"
    using s dd0 by simp
  finally have "\<bar>s - A\<bar> \<le> (d * d / 2 ^ 24 + 1 / 2 ^ 150) + \<bar>d * d - A\<bar>" .
  then have "\<bar>s - A\<bar> \<le> A / 2 ^ 22 + 1 / 2 ^ 146"
    using ddA a0 a4 A0 by simp
  then show ?thesis by (simp only: A_def)
qed

lemma squared_difference:
  assumes p: "\<bar>p\<bar> \<le> 2" and c: "\<bar>c\<bar> \<le> 2"
  shows "\<exists>s. fmul (fsub (Fin p) (Fin c)) (fsub (Fin p) (Fin c)) = Fin s
             \<and> \<bar>s - (p - c) * (p - c)\<bar> \<le> (p - c) * (p - c) / 2 ^ 22 + 1 / 2 ^ 146"
proof -
  have D: "\<bar>p - c\<bar> \<le> 4" using p c by linarith
  then have "\<bar>p - c\<bar> \<le> 2 ^ 127" by simp
  from fsub_error [OF this] obtain d where
    d: "fsub (Fin p) (Fin c) = Fin d"
    and de: "\<bar>d - (p - c)\<bar> \<le> \<bar>p - c\<bar> / 2 ^ 24 + 1 / 2 ^ 150"
    by blast
  define a where "a = \<bar>p - c\<bar>"
  have "\<bar>d\<bar> \<le> a + \<bar>d - (p - c)\<bar>" unfolding a_def by linarith
  also have "\<dots> \<le> a + (a / 2 ^ 24 + 1 / 2 ^ 150)" using de unfolding a_def by simp
  also have "\<dots> \<le> 5" using D unfolding a_def [symmetric] by simp
  finally have d5: "\<bar>d\<bar> \<le> 5" .
  have "\<bar>d * d\<bar> = \<bar>d\<bar> * \<bar>d\<bar>" by (rule abs_mult)
  also have "\<dots> \<le> 5 * 5" using d5 by (intro mult_mono) simp_all
  finally have "\<bar>d * d\<bar> \<le> 2 ^ 127" by simp
  from round32_error [OF this] obtain s where
    s: "round32 (d * d) = Fin s" and se: "\<bar>s - d * d\<bar> \<le> \<bar>d * d\<bar> / 2 ^ 24 + 1 / 2 ^ 150"
    by blast
  have "fmul (fsub (Fin p) (Fin c)) (fsub (Fin p) (Fin c)) = Fin s"
    by (simp only: d fmul.simps(1) s)
  with square_error [OF D de se] show ?thesis by blast
qed

lemma sum_error:
  fixes P Q p q a :: real
  assumes P: "0 \<le> P" and Q: "0 \<le> Q"
    and p: "\<bar>p - P\<bar> \<le> P / 2 ^ 22 + 1 / 2 ^ 146" and q: "\<bar>q - Q\<bar> \<le> Q / 2 ^ 22 + 1 / 2 ^ 146"
    and a: "\<bar>a - (p + q)\<bar> \<le> \<bar>p + q\<bar> / 2 ^ 24 + 1 / 2 ^ 150"
  shows "\<bar>a - (P + Q)\<bar> \<le> (P + Q) / 2 ^ 21 + 1 / 2 ^ 144"
proof -
  define u v t n T where "u = \<bar>p - P\<bar>" and "v = \<bar>q - Q\<bar>" and "t = \<bar>a - (p + q)\<bar>"
    and "n = \<bar>p + q\<bar>" and "T = \<bar>a - (P + Q)\<bar>"
  have 1: "T \<le> t + u + v" unfolding T_def t_def u_def v_def by linarith
  have 2: "n \<le> P + Q + u + v" unfolding n_def u_def v_def using P Q by linarith
  have 3: "u \<le> P / 2 ^ 22 + 1 / 2 ^ 146" "v \<le> Q / 2 ^ 22 + 1 / 2 ^ 146"
    "t \<le> n / 2 ^ 24 + 1 / 2 ^ 150"
    using p q a unfolding u_def v_def t_def n_def by simp_all
  have "T \<le> (P + Q) / 2 ^ 21 + 1 / 2 ^ 144" using 1 2 3 P Q by (simp add: field_simps)
  then show ?thesis unfolding T_def .
qed

lemma sum_error2:
  fixes P Q p q a :: real
  assumes P: "0 \<le> P" and Q: "0 \<le> Q"
    and p: "\<bar>p - P\<bar> \<le> P / 2 ^ 21 + 1 / 2 ^ 144" and q: "\<bar>q - Q\<bar> \<le> Q / 2 ^ 21 + 1 / 2 ^ 144"
    and a: "\<bar>a - (p + q)\<bar> \<le> \<bar>p + q\<bar> / 2 ^ 24 + 1 / 2 ^ 150"
  shows "\<bar>a - (P + Q)\<bar> \<le> (P + Q) / 2 ^ 20 + 1 / 2 ^ 142"
proof -
  define u v t n T where "u = \<bar>p - P\<bar>" and "v = \<bar>q - Q\<bar>" and "t = \<bar>a - (p + q)\<bar>"
    and "n = \<bar>p + q\<bar>" and "T = \<bar>a - (P + Q)\<bar>"
  have 1: "T \<le> t + u + v" unfolding T_def t_def u_def v_def by linarith
  have 2: "n \<le> P + Q + u + v" unfolding n_def u_def v_def using P Q by linarith
  have 3: "u \<le> P / 2 ^ 21 + 1 / 2 ^ 144" "v \<le> Q / 2 ^ 21 + 1 / 2 ^ 144"
    "t \<le> n / 2 ^ 24 + 1 / 2 ^ 150"
    using p q a unfolding u_def v_def t_def n_def by simp_all
  have "T \<le> (P + Q) / 2 ^ 20 + 1 / 2 ^ 142" using 1 2 3 P Q by (simp add: field_simps)
  then show ?thesis unfolding T_def .
qed

lemma square_le_16:
  fixes p c :: real
  assumes "\<bar>p\<bar> \<le> 2" and "\<bar>c\<bar> \<le> 2"
  shows "(p - c) * (p - c) \<le> 16"
proof -
  have "\<bar>p - c\<bar> \<le> 4" using assms by linarith
  then have "\<bar>p - c\<bar> * \<bar>p - c\<bar> \<le> 4 * 4" by (intro mult_mono) simp_all
  then show ?thesis by simp
qed

lemma fadd_sum:
  assumes P: "0 \<le> P" "P \<le> 32" and Q: "0 \<le> Q" "Q \<le> 32"
    and p: "\<bar>p - P\<bar> \<le> P / 2 ^ 21 + 1 / 2 ^ 144" and q: "\<bar>q - Q\<bar> \<le> Q / 2 ^ 21 + 1 / 2 ^ 144"
  shows "\<exists>a. fadd (Fin p) (Fin q) = Fin a
             \<and> \<bar>a - (p + q)\<bar> \<le> \<bar>p + q\<bar> / 2 ^ 24 + 1 / 2 ^ 150"
proof -
  define u v where "u = \<bar>p - P\<bar>" and "v = \<bar>q - Q\<bar>"
  have "\<bar>p + q\<bar> \<le> P + Q + u + v" unfolding u_def v_def using P(1) Q(1) by linarith
  moreover have "u \<le> P / 2 ^ 21 + 1 / 2 ^ 144" "v \<le> Q / 2 ^ 21 + 1 / 2 ^ 144"
    using p q unfolding u_def v_def by simp_all
  ultimately have "\<bar>p + q\<bar> \<le> 100" using P Q by (simp add: field_simps)
  then have "\<bar>p + q\<bar> \<le> 2 ^ 127" by simp
  from round32_error [OF this] show ?thesis by simp
qed

lemma weaken_error:
  fixes p P :: real
  assumes "0 \<le> P" and "\<bar>p - P\<bar> \<le> P / 2 ^ 22 + 1 / 2 ^ 146"
  shows "\<bar>p - P\<bar> \<le> P / 2 ^ 21 + 1 / 2 ^ 144"
proof -
  define u where "u = \<bar>p - P\<bar>"
  have "u \<le> P / 2 ^ 22 + 1 / 2 ^ 146" using assms(2) unfolding u_def .
  then have "u \<le> P / 2 ^ 21 + 1 / 2 ^ 144" using assms(1) by (simp add: field_simps)
  then show ?thesis unfolding u_def .
qed

text \<open>
  The squared distance as \<^verbatim>\<open>OutOfBounds\<close> computes it, for coordinates of magnitude at most 2:
  it is finite and within a relative error of \<open>1 / 2 ^ 20\<close> (and \<open>1 / 2 ^ 142\<close>) of the exact one.
\<close>

lemma distance_error:
  assumes x: "\<bar>x\<bar> \<le> 2" and y: "\<bar>y\<bar> \<le> 2" and z: "\<bar>z\<bar> \<le> 2" and w: "\<bar>w\<bar> \<le> 2"
    and a: "\<bar>a\<bar> \<le> 2" and b: "\<bar>b\<bar> \<le> 2"
  shows "\<exists>S. fadd (fadd (fmul (fsub (Fin x) (Fin a)) (fsub (Fin x) (Fin a)))
                         (fmul (fsub (Fin y) (Fin b)) (fsub (Fin y) (Fin b))))
                   (fadd (fmul (fsub (Fin z) (Fin 0)) (fsub (Fin z) (Fin 0)))
                         (fmul (fsub (Fin w) (Fin 0)) (fsub (Fin w) (Fin 0)))) = Fin S
             \<and> \<bar>S - ((x - a) * (x - a) + (y - b) * (y - b) + ((z - 0) * (z - 0) + (w - 0) * (w - 0)))\<bar>
               \<le> ((x - a) * (x - a) + (y - b) * (y - b) + ((z - 0) * (z - 0) + (w - 0) * (w - 0)))
                   / 2 ^ 20 + 1 / 2 ^ 142"
proof -
  define X Y Z W where "X = (x - a) * (x - a)" and "Y = (y - b) * (y - b)"
    and "Z = (z - 0) * (z - 0)" and "W = (w - 0) * (w - 0)"
  have zero: "\<bar>0 :: real\<bar> \<le> 2" by simp
  have X0: "0 \<le> X" and Y0: "0 \<le> Y" and Z0: "0 \<le> Z" and W0: "0 \<le> W"
    by (simp_all add: X_def Y_def Z_def W_def)
  have X16: "X \<le> 16" unfolding X_def by (rule square_le_16 [OF x a])
  have Y16: "Y \<le> 16" unfolding Y_def by (rule square_le_16 [OF y b])
  have Z16: "Z \<le> 16" unfolding Z_def by (rule square_le_16 [OF z zero])
  have W16: "W \<le> 16" unfolding W_def by (rule square_le_16 [OF w zero])
  from squared_difference [OF x a] obtain sx where
    sx: "fmul (fsub (Fin x) (Fin a)) (fsub (Fin x) (Fin a)) = Fin sx"
    and sxe: "\<bar>sx - X\<bar> \<le> X / 2 ^ 22 + 1 / 2 ^ 146"
    unfolding X_def by blast
  from squared_difference [OF y b] obtain sy where
    sy: "fmul (fsub (Fin y) (Fin b)) (fsub (Fin y) (Fin b)) = Fin sy"
    and sye: "\<bar>sy - Y\<bar> \<le> Y / 2 ^ 22 + 1 / 2 ^ 146"
    unfolding Y_def by blast
  from squared_difference [OF z zero] obtain sz where
    sz: "fmul (fsub (Fin z) (Fin 0)) (fsub (Fin z) (Fin 0)) = Fin sz"
    and sze: "\<bar>sz - Z\<bar> \<le> Z / 2 ^ 22 + 1 / 2 ^ 146"
    unfolding Z_def by blast
  from squared_difference [OF w zero] obtain sw where
    sw: "fmul (fsub (Fin w) (Fin 0)) (fsub (Fin w) (Fin 0)) = Fin sw"
    and swe: "\<bar>sw - W\<bar> \<le> W / 2 ^ 22 + 1 / 2 ^ 146"
    unfolding W_def by blast
  have X32: "X \<le> 32" and Y32: "Y \<le> 32" and Z32: "Z \<le> 32" and W32: "W \<le> 32"
    using X16 Y16 Z16 W16 by simp_all
  from fadd_sum [OF X0 X32 Y0 Y32 weaken_error [OF X0 sxe] weaken_error [OF Y0 sye]]
  obtain a1 where a1: "fadd (Fin sx) (Fin sy) = Fin a1"
    and a1e: "\<bar>a1 - (sx + sy)\<bar> \<le> \<bar>sx + sy\<bar> / 2 ^ 24 + 1 / 2 ^ 150"
    by blast
  from fadd_sum [OF Z0 Z32 W0 W32 weaken_error [OF Z0 sze] weaken_error [OF W0 swe]]
  obtain a2 where a2: "fadd (Fin sz) (Fin sw) = Fin a2"
    and a2e: "\<bar>a2 - (sz + sw)\<bar> \<le> \<bar>sz + sw\<bar> / 2 ^ 24 + 1 / 2 ^ 150"
    by blast
  have e1: "\<bar>a1 - (X + Y)\<bar> \<le> (X + Y) / 2 ^ 21 + 1 / 2 ^ 144"
    by (rule sum_error [OF X0 Y0 sxe sye a1e])
  have e2: "\<bar>a2 - (Z + W)\<bar> \<le> (Z + W) / 2 ^ 21 + 1 / 2 ^ 144"
    by (rule sum_error [OF Z0 W0 sze swe a2e])
  have XY0: "0 \<le> X + Y" and ZW0: "0 \<le> Z + W" using X0 Y0 Z0 W0 by simp_all
  have XY32: "X + Y \<le> 32" and ZW32: "Z + W \<le> 32" using X16 Y16 Z16 W16 by simp_all
  from fadd_sum [OF XY0 XY32 ZW0 ZW32 e1 e2]
  obtain S where S: "fadd (Fin a1) (Fin a2) = Fin S"
    and Se: "\<bar>S - (a1 + a2)\<bar> \<le> \<bar>a1 + a2\<bar> / 2 ^ 24 + 1 / 2 ^ 150"
    by blast
  have "\<bar>S - (X + Y + (Z + W))\<bar> \<le> (X + Y + (Z + W)) / 2 ^ 20 + 1 / 2 ^ 142"
    by (rule sum_error2 [OF XY0 ZW0 e1 e2 Se])
  moreover have "fadd (fadd (fmul (fsub (Fin x) (Fin a)) (fsub (Fin x) (Fin a)))
                         (fmul (fsub (Fin y) (Fin b)) (fsub (Fin y) (Fin b))))
                   (fadd (fmul (fsub (Fin z) (Fin 0)) (fsub (Fin z) (Fin 0)))
                         (fmul (fsub (Fin w) (Fin 0)) (fsub (Fin w) (Fin 0)))) = Fin S"
    by (simp only: sx sy sz sw a1 a2 S)
  ultimately show ?thesis unfolding X_def Y_def Z_def W_def by blast
qed

subsection \<open>The log of calls, and the integers passed to OpenGL\<close>

lemma issued_issue: "issued gl (issue cs gl) = cs"
  by (simp add: issued_def issue_def)

lemma Update_fst: "fst (Update m dt gl) = m"
  by (simp add: Update_def Let_def)

lemma Render_fst: "fst (Render m gl) = m"
  by (simp add: Render_def)

lemma frame_fst: "fst (frame c s) = fst s"
  by (cases c; cases s) (simp_all add: Update_fst Render_fst)

lemma frames_fst: "fst (frames cs s) = fst s"
  by (induction cs arbitrary: s) (simp_all add: frame_fst)

lemma frame_calls: "\<exists>xs. gl_calls (snd (frame c s)) = gl_calls (snd s) @ xs"
  by (cases c; cases s) (simp_all add: Update_def Render_def issue_def Let_def)

lemma frames_calls: "\<exists>xs. gl_calls (snd (frames cs s)) = gl_calls (snd s) @ xs"
proof (induction cs arbitrary: s)
  case Nil
  then show ?case by simp
next
  case (Cons c cs)
  obtain xs where 1: "gl_calls (snd (frame c s)) = gl_calls (snd s) @ xs"
    using frame_calls by blast
  obtain ys where 2: "gl_calls (snd (frames cs (frame c s))) = gl_calls (snd (frame c s)) @ ys"
    using Cons.IH by blast
  show ?case by (simp add: 1 2)
qed

lemma issued_append:
  assumes "gl_calls gl1 = gl_calls gl @ xs" and "gl_calls gl2 = gl_calls gl1 @ ys"
  shows "issued gl gl2 = issued gl gl1 @ issued gl1 gl2"
  using assms by (simp add: issued_def)

lemma sint_small:
  assumes "unat (w :: u32) < 2 ^ 31"
  shows "sint w = int (unat w)"
proof -
  have u: "uint w = int (unat w)" by (rule uint_nat)
  have "int (unat w) < int (2 ^ 31)" using assms by (simp only: of_nat_less_iff)
  then have "uint w < 2 ^ 31" by (simp only: u of_nat_power of_nat_numeral)
  moreover have "- (2 ^ 31) \<le> uint w"
  proof -
    have "- (2 ^ 31) \<le> (0 :: int)" by simp
    also have "0 \<le> uint w" by (rule uint_ge_0)
    finally show ?thesis .
  qed
  ultimately have "signed_take_bit 31 (uint w) = uint w"
    by (rule signed_take_bit_int_eq_self [rotated])
  moreover have "sint w = signed_take_bit (LENGTH(32) - Suc 0) (uint w)"
    by (rule sint_uint)
  ultimately show ?thesis by (simp only: u len_bit0 len_num1 mult_1_right) simp
qed

lemma dispatch_count:
  "unat (word_of_nat (unat (n :: u32) div 256 + 1) :: u32) = unat n div 256 + 1"
proof -
  have "unat n < 2 ^ 32" using unsigned_less [of n] by simp
  then have lt: "unat n div 256 + 1 < 2 ^ LENGTH(32)" by simp
  have "unat (word_of_nat (unat n div 256 + 1) :: u32)
          = (unat n div 256 + 1) mod 2 ^ LENGTH(32)"
    by (rule unat_of_nat)
  also have "\<dots> = unat n div 256 + 1" using lt by (rule mod_less)
  finally show ?thesis .
qed

section \<open>The claims\<close>

text \<open>
  Claim C1: for every manager initialised with \<open>minVelocity \<le> maxVelocity\<close>, every vector that
  \<^verbatim>\<open>GetNewVelocityVector\<close> returns has a magnitude between \<open>minVelocity\<close> and \<open>maxVelocity\<close>.
  The code breaks it when both integers drawn are multiples of 100: after \<^verbatim>\<open>Init\<close> with the
  speeds 1 and 2, the draws 100 and -200 give the direction (0, 0), and the vector returned
  is (NaN, NaN), whose magnitude is not a number and lies in no interval.
\<close>

theorem GetNewVelocityVector_zero_direction:
  "fst (GetNewVelocityVector
          (fst (Init 1 2 3 1 (Vec2 (Fin 0) (Fin 0)) (Fin 1) (Fin 1) (Fin 2)
                  new_Particle new_ParticleManager (toast 3 4 1) new_GL))
          (toast 100 (- 200) (1 / 2)))
     = Vec2 NaN NaN
   \<and> length2 (fst (GetNewVelocityVector
          (fst (Init 1 2 3 1 (Vec2 (Fin 0) (Fin 0)) (Fin 1) (Fin 1) (Fin 2)
                  new_Particle new_ParticleManager (toast 3 4 1) new_GL))
          (toast 100 (- 200) (1 / 2))))
     = NaN"
proof -
  have "c_rem (shd (posAndNeg (toast 100 (- 200) (1 / 2)))) 100 = 0"
    and "c_rem (shd (stl (posAndNeg (toast 100 (- 200) (1 / 2))))) 100 = 0"
    by (simp_all add: toast_def c_rem_def)
  then show ?thesis by (simp add: zero_direction_velocity length2_def)
qed

text \<open>
  Claim C2, as amended: after \<^verbatim>\<open>Init\<close> with a center in window coordinates (both
  coordinates between -1 and 1), when the direction drawn is not the zero vector and
  \<^verbatim>\<open>RandomOnRange0to1\<close> returns a float between 0 and 1, \<^verbatim>\<open>ResetParticle\<close> puts the particle at
  a distance of at most \<open>1 / 10 + 1 / 10 ^ 6\<close> from the emitter center, with third and fourth
  coordinate 0: the hard-coded region of 0.1, up to the rounding of the single-precision
  operations. The particle is therefore within the circle of the given radius whenever that
  radius is at least \<open>1 / 10 + 1 / 10 ^ 6\<close> in absolute value. The region does not follow the
  radius given to \<^verbatim>\<open>Init\<close>.
\<close>

theorem ResetParticle_position:
  assumes I: "Init programId computeProgramId numParticles maxParticlesEmittedPerFrame
                (Vec2 (Fin cx) (Fin cy)) radius minVelocity maxVelocity fresh m0 g0 gl0
              = (m, g1, gl1)"
    and cx: "\<bar>cx\<bar> \<le> 1" and cy: "\<bar>cy\<bar> \<le> 1"
    and dir: "c_rem (shd (posAndNeg g)) 100 \<noteq> 0 \<or> c_rem (shd (stl (posAndNeg g))) 100 \<noteq> 0"
    and u0: "0 \<le> shd (onRange0to1 g)" and u1: "shd (onRange0to1 g) \<le> 1"
  shows "\<exists>px py.
           p_position (fst (ResetParticle m p g)) = Vec4 (Fin px) (Fin py) (Fin 0) (Fin 0)
           \<and> sqrt ((px - cx)\<^sup>2 + (py - cy)\<^sup>2) \<le> 1 / 10 + 1 / 10 ^ 6
           \<and> (radius = Fin rad \<longrightarrow> 1 / 10 + 1 / 10 ^ 6 \<le> \<bar>rad\<bar>
                \<longrightarrow> sqrt ((px - cx)\<^sup>2 + (py - cy)\<^sup>2) \<le> \<bar>rad\<bar>)"
proof -
  let ?X = "c_rem (shd (posAndNeg g)) 100" and ?Y = "c_rem (shd (stl (posAndNeg g))) 100"
  let ?u = "shd (onRange0to1 g)"
  let ?c = "13421773 / 134217728 :: real"
  from normalize_bound [OF c_rem_100_bound c_rem_100_bound dir] obtain nx ny where
    n: "normalize (Vec2 (Fin (real_of_int ?X)) (Fin (real_of_int ?Y))) = Vec2 (Fin nx) (Fin ny)"
    and nb: "sqrt (nx\<^sup>2 + ny\<^sup>2) \<le> 1 + 1 / 2 ^ 21"
    by blast
  define t where "t = ?u * ?c"
  have t0: "0 \<le> t" unfolding t_def using u0 by simp
  have "?u * ?c \<le> 1 * ?c" using u1 by (intro mult_right_mono) simp_all
  then have t1: "t \<le> 13421773 / 134217728" unfolding t_def by simp
  have "\<bar>?u * ?c\<bar> \<le> 2 ^ 127" using t0 t1 unfolding t_def by simp
  from fmul_error [OF this] obtain rv where
    rv: "fmul (Fin ?u) (Fin ?c) = Fin rv"
    and "\<bar>rv - ?u * ?c\<bar> \<le> \<bar>?u * ?c\<bar> / 2 ^ 24 + 1 / 2 ^ 150"
    by blast
  then have rve: "\<bar>rv - t\<bar> \<le> \<bar>t\<bar> / 2 ^ 24 + 1 / 2 ^ 150" by (simp only: t_def)
  have "\<bar>rv\<bar> \<le> t + (t / 2 ^ 24 + 1 / 2 ^ 150)" using rve t0 by linarith
  also have "\<dots> \<le> 13421773 / 134217728 + (13421773 / 134217728 / 2 ^ 24 + 1 / 2 ^ 150)"
    using t1 by (intro add_mono divide_right_mono) simp_all
  also have "\<dots> \<le> 1 / 10 + 1 / 10 ^ 8" by simp
  finally have rvb: "\<bar>rv\<bar> \<le> 1 / 10 + 1 / 10 ^ 8" .
  have nn: "0 \<le> sqrt (nx\<^sup>2 + ny\<^sup>2)" by simp
  define M where "M = sqrt ((nx * rv)\<^sup>2 + (ny * rv)\<^sup>2)"
  have M: "M = \<bar>rv\<bar> * sqrt (nx\<^sup>2 + ny\<^sup>2)" unfolding M_def by (rule norm2_scaled)
  have "M \<le> (1 / 10 + 1 / 10 ^ 8) * (1 + 1 / 2 ^ 21)"
    unfolding M using rvb nb nn by (intro mult_mono) simp_all
  also have "\<dots> \<le> 1 / 10 + 6 / 10 ^ 8" by simp
  finally have Mb: "M \<le> 1 / 10 + 6 / 10 ^ 8" .
  have M0: "0 \<le> M" unfolding M_def by simp
  have mx: "\<bar>nx * rv\<bar> \<le> M"
    unfolding M_def by (rule abs_le_norm2(1) [where a = "nx * rv" and b = "ny * rv"])
  have my: "\<bar>ny * rv\<bar> \<le> M"
    unfolding M_def by (rule abs_le_norm2(2) [where a = "nx * rv" and b = "ny * rv"])
  have "\<bar>nx * rv\<bar> \<le> 2 ^ 127" using mx Mb by simp
  from fmul_error [OF this] obtain ox where
    ox: "fmul (Fin nx) (Fin rv) = Fin ox"
    and oxe: "\<bar>ox - nx * rv\<bar> \<le> \<bar>nx * rv\<bar> / 2 ^ 24 + 1 / 2 ^ 150"
    by blast
  have "\<bar>ny * rv\<bar> \<le> 2 ^ 127" using my Mb by simp
  from fmul_error [OF this] obtain oy where
    oy: "fmul (Fin ny) (Fin rv) = Fin oy"
    and oye: "\<bar>oy - ny * rv\<bar> \<le> \<bar>ny * rv\<bar> / 2 ^ 24 + 1 / 2 ^ 150"
    by blast
  define N where "N = sqrt (ox\<^sup>2 + oy\<^sup>2)"
  have "N = sqrt ((nx * rv + (ox - nx * rv))\<^sup>2 + (ny * rv + (oy - ny * rv))\<^sup>2)"
    unfolding N_def by simp
  also have "\<dots> \<le> M + \<bar>ox - nx * rv\<bar> + \<bar>oy - ny * rv\<bar>"
    unfolding M_def by (rule norm2_perturbed)
  also have "\<dots> \<le> M + (M / 2 ^ 24 + 1 / 2 ^ 150) + (M / 2 ^ 24 + 1 / 2 ^ 150)"
  proof -
    have "\<bar>nx * rv\<bar> / 2 ^ 24 \<le> M / 2 ^ 24" using mx by (rule divide_right_mono) simp
    moreover have "\<bar>ny * rv\<bar> / 2 ^ 24 \<le> M / 2 ^ 24" using my by (rule divide_right_mono) simp
    ultimately show ?thesis using oxe oye by linarith
  qed
  also have "\<dots> \<le> (1 / 10 + 6 / 10 ^ 8) + ((1 / 10 + 6 / 10 ^ 8) / 2 ^ 24 + 1 / 2 ^ 150)
                   + ((1 / 10 + 6 / 10 ^ 8) / 2 ^ 24 + 1 / 2 ^ 150)"
    using Mb by (intro add_mono divide_right_mono) simp_all
  also have "\<dots> \<le> 1 / 10 + 1 / 10 ^ 7" by simp
  finally have Nb: "N \<le> 1 / 10 + 1 / 10 ^ 7" .
  have N1: "N \<le> 1" using Nb by (rule order_trans) simp
  have ax: "\<bar>ox\<bar> \<le> N"
    unfolding N_def by (rule abs_le_norm2(1) [where a = ox and b = oy])
  have ay: "\<bar>oy\<bar> \<le> N"
    unfolding N_def by (rule abs_le_norm2(2) [where a = ox and b = oy])
  have sx: "\<bar>cx + ox\<bar> \<le> 2" using cx ax N1 by linarith
  have sy: "\<bar>cy + oy\<bar> \<le> 2" using cy ay N1 by linarith
  have "\<bar>cx + ox\<bar> \<le> 2 ^ 127" using sx by simp
  from fadd_error [OF this] obtain px where
    px: "fadd (Fin cx) (Fin ox) = Fin px"
    and pxe: "\<bar>px - (cx + ox)\<bar> \<le> \<bar>cx + ox\<bar> / 2 ^ 24 + 1 / 2 ^ 150"
    by blast
  have "\<bar>cy + oy\<bar> \<le> 2 ^ 127" using sy by simp
  from fadd_error [OF this] obtain py where
    py: "fadd (Fin cy) (Fin oy) = Fin py"
    and pye: "\<bar>py - (cy + oy)\<bar> \<le> \<bar>cy + oy\<bar> / 2 ^ 24 + 1 / 2 ^ 150"
    by blast
  have c: "m_center m = Vec2 (Fin cx) (Fin cy)" by (rule Init_manager(4) [OF I])
  have pos: "p_position (fst (ResetParticle m p g)) = Vec4 (Fin px) (Fin py) (Fin 0) (Fin 0)"
    by (simp only: ResetParticle_fst c n rv vscale2.simps ox oy vadd2.simps px py vec4_of.simps)
      simp
  have "sqrt ((px - cx)\<^sup>2 + (py - cy)\<^sup>2)
        = sqrt ((ox + (px - (cx + ox)))\<^sup>2 + (oy + (py - (cy + oy)))\<^sup>2)"
    by simp
  also have "\<dots> \<le> N + \<bar>px - (cx + ox)\<bar> + \<bar>py - (cy + oy)\<bar>"
    unfolding N_def by (rule norm2_perturbed)
  also have "\<dots> \<le> N + (2 / 2 ^ 24 + 1 / 2 ^ 150) + (2 / 2 ^ 24 + 1 / 2 ^ 150)"
  proof -
    have "\<bar>cx + ox\<bar> / 2 ^ 24 \<le> 2 / 2 ^ 24" using sx by (rule divide_right_mono) simp
    moreover have "\<bar>cy + oy\<bar> / 2 ^ 24 \<le> 2 / 2 ^ 24" using sy by (rule divide_right_mono) simp
    ultimately show ?thesis using pxe pye by linarith
  qed
  also have "\<dots> \<le> (1 / 10 + 1 / 10 ^ 7) + (2 / 2 ^ 24 + 1 / 2 ^ 150) + (2 / 2 ^ 24 + 1 / 2 ^ 150)"
    using Nb by (intro add_mono) simp_all
  also have "\<dots> \<le> 1 / 10 + 1 / 10 ^ 6" by simp
  finally have d: "sqrt ((px - cx)\<^sup>2 + (py - cy)\<^sup>2) \<le> 1 / 10 + 1 / 10 ^ 6" .
  then have "radius = Fin rad \<longrightarrow> 1 / 10 + 1 / 10 ^ 6 \<le> \<bar>rad\<bar>
        \<longrightarrow> sqrt ((px - cx)\<^sup>2 + (py - cy)\<^sup>2) \<le> \<bar>rad\<bar>"
    by linarith
  with pos d show ?thesis by blast
qed

theorem ResetParticle_position_witness:
  "\<exists>px py.
     p_position (fst (ResetParticle
         (fst (Init 1 2 3 1 (Vec2 (Fin 0) (Fin 0)) (Fin 1) (Fin 1) (Fin 2)
                 new_Particle new_ParticleManager (toast 3 4 1) new_GL))
         new_Particle (toast 1 0 (1 / 2))))
       = Vec4 (Fin px) (Fin py) (Fin 0) (Fin 0)
     \<and> sqrt ((px - 0)\<^sup>2 + (py - 0)\<^sup>2) \<le> 1 / 10 + 1 / 10 ^ 6
     \<and> sqrt ((px - 0)\<^sup>2 + (py - 0)\<^sup>2) \<le> 1"
proof -
  obtain m g1 gl1 where I: "Init 1 2 3 1 (Vec2 (Fin 0) (Fin 0)) (Fin 1) (Fin 1) (Fin 2)
                       new_Particle new_ParticleManager (toast 3 4 1) new_GL = (m, g1, gl1)"
    by (rule prod_cases3)
  have c: "\<bar>0 :: real\<bar> \<le> 1" by simp
  have 1: "c_rem (shd (posAndNeg (toast 1 0 (1 / 2)))) 100 \<noteq> 0
           \<or> c_rem (shd (stl (posAndNeg (toast 1 0 (1 / 2))))) 100 \<noteq> 0"
    by (simp add: toast_def c_rem_def)
  have 2: "0 \<le> shd (onRange0to1 (toast 1 0 (1 / 2)))"
    and 3: "shd (onRange0to1 (toast 1 0 (1 / 2))) \<le> 1"
    by (simp_all add: toast_def)
  from ResetParticle_position [OF I c c 1 2 3, where p = new_Particle and rad = 1] show ?thesis
    unfolding I fst_conv by fastforce
qed

text \<open>
  With the radius 1/32, the direction (1, 0) and the float 1, the particle is reset to
  (0.1f, 0), at a distance of \<open>13421773 / 134217728\<close> from the center: outside the circle
  of radius 1/32, and \<^verbatim>\<open>OutOfBounds\<close> says so. That distance is also greater than one
  tenth, since the float \<^verbatim>\<open>0.1f\<close> is.
\<close>

theorem ResetParticle_position_counterexample:
  "p_position (fst (ResetParticle
       (fst (Init 1 2 3 1 (Vec2 (Fin 0) (Fin 0)) (Fin (1 / 32)) (Fin 1) (Fin 2)
               new_Particle new_ParticleManager (toast 3 4 1) new_GL))
       new_Particle (toast 1 0 1)))
     = Vec4 (Fin (13421773 / 134217728)) (Fin 0) (Fin 0) (Fin 0)
   \<and> (1 / 32 :: real)\<^sup>2 < (13421773 / 134217728 - 0)\<^sup>2 + (0 - 0)\<^sup>2
   \<and> (1 / 10 :: real)\<^sup>2 < (13421773 / 134217728 - 0)\<^sup>2 + (0 - 0)\<^sup>2
   \<and> OutOfBounds
       (fst (Init 1 2 3 1 (Vec2 (Fin 0) (Fin 0)) (Fin (1 / 32)) (Fin 1) (Fin 2)
               new_Particle new_ParticleManager (toast 3 4 1) new_GL))
       (fst (ResetParticle
               (fst (Init 1 2 3 1 (Vec2 (Fin 0) (Fin 0)) (Fin (1 / 32)) (Fin 1) (Fin 2)
                       new_Particle new_ParticleManager (toast 3 4 1) new_GL))
               new_Particle (toast 1 0 1)))"
proof -
  obtain m g1 gl1 where I: "Init 1 2 3 1 (Vec2 (Fin 0) (Fin 0)) (Fin (1 / 32)) (Fin 1) (Fin 2)
               new_Particle new_ParticleManager (toast 3 4 1) new_GL = (m, g1, gl1)"
    by (rule prod_cases3)
  have c: "m_center m = Vec2 (Fin 0) (Fin 0)" and rr: "m_radiusSqr m = Fin (1 / 1024)"
    using Init_manager(4,5) [OF I] by (simp_all add: round32_1024th)
  have n: "normalize (Vec2 (Fin 1) (Fin 0)) = Vec2 (Fin 1) (Fin 0)"
    by (simp add: normalize_def inversesqrt_def round32_0 round32_1)
  have pos: "p_position (fst (ResetParticle m new_Particle (toast 1 0 1)))
      = Vec4 (Fin (13421773 / 134217728)) (Fin 0) (Fin 0) (Fin 0)"
    by (simp add: ResetParticle_fst c toast_def c_rem_def n round32_0 round32_tenth)
  have "OutOfBounds m (fst (ResetParticle m new_Particle (toast 1 0 1)))"
    by (simp add: OutOfBounds_def c rr pos round32_0 round32_tenth round32_tenth_sq
        round32_tenth_sq_exact power2_eq_square)
  with pos show ?thesis unfolding I fst_conv by (simp add: power2_eq_square)
qed

text \<open>
  Claim C3, as amended: for a manager initialised with center \<open>c\<close> and radius \<open>r\<close>,
  \<^verbatim>\<open>OutOfBounds\<close> is true of a particle exactly when the squared distance from its position
  to \<open>(c.x, c.y, 0, 0)\<close>, computed in single precision (every difference, product and sum
  rounded, the four squares added as \<open>(x + y) + (z + w)\<close>), is strictly greater than the
  single-precision product \<open>r * r\<close>. A comparison with a NaN operand is false. Against the
  exact squared distance this is right up to rounding: for coordinates of magnitude at
  most 2 and a radius between 1/1024 and 2, every particle whose exact squared distance
  exceeds \<open>(1 + 1 / 10 ^ 5) * r\<^sup>2\<close> is flagged and no particle whose exact squared distance
  is below \<open>(1 - 1 / 10 ^ 5) * r\<^sup>2\<close> is.
\<close>

theorem OutOfBounds_single_precision:
  assumes I: "Init programId computeProgramId numParticles maxParticlesEmittedPerFrame
                (Vec2 cx cy) r minVelocity maxVelocity fresh m0 g0 gl0 = (m, g1, gl1)"
  shows "(OutOfBounds m (p\<lparr>p_position := Vec4 px py pz pw\<rparr>)
          \<longleftrightarrow> fgt (fadd (fadd (fmul (fsub px cx) (fsub px cx)) (fmul (fsub py cy) (fsub py cy)))
                        (fadd (fmul (fsub pz (Fin 0)) (fsub pz (Fin 0)))
                              (fmul (fsub pw (Fin 0)) (fsub pw (Fin 0)))))
                   (fmul r r))
       \<and> (px = NaN \<or> py = NaN \<or> pz = NaN \<or> pw = NaN \<or> cx = NaN \<or> cy = NaN \<or> r = NaN
            \<longrightarrow> \<not> OutOfBounds m (p\<lparr>p_position := Vec4 px py pz pw\<rparr>))
       \<and> (px = Fin x \<and> py = Fin y \<and> pz = Fin z \<and> pw = Fin w
            \<and> cx = Fin a \<and> cy = Fin b \<and> r = Fin rad
            \<and> \<bar>x\<bar> \<le> 2 \<and> \<bar>y\<bar> \<le> 2 \<and> \<bar>z\<bar> \<le> 2 \<and> \<bar>w\<bar> \<le> 2 \<and> \<bar>a\<bar> \<le> 2 \<and> \<bar>b\<bar> \<le> 2
            \<and> 1 / 1024 \<le> \<bar>rad\<bar> \<and> \<bar>rad\<bar> \<le> 2
            \<longrightarrow> ((1 + 1 / 10 ^ 5) * rad\<^sup>2 < (x - a)\<^sup>2 + (y - b)\<^sup>2 + (z - 0)\<^sup>2 + (w - 0)\<^sup>2
                   \<longrightarrow> OutOfBounds m (p\<lparr>p_position := Vec4 px py pz pw\<rparr>))
               \<and> ((x - a)\<^sup>2 + (y - b)\<^sup>2 + (z - 0)\<^sup>2 + (w - 0)\<^sup>2 < (1 - 1 / 10 ^ 5) * rad\<^sup>2
                   \<longrightarrow> \<not> OutOfBounds m (p\<lparr>p_position := Vec4 px py pz pw\<rparr>)))"
proof -
  let ?P = "p\<lparr>p_position := Vec4 px py pz pw\<rparr>"
  have eq: "OutOfBounds m ?P
    \<longleftrightarrow> fgt (fadd (fadd (fmul (fsub px cx) (fsub px cx)) (fmul (fsub py cy) (fsub py cy)))
                  (fadd (fmul (fsub pz (Fin 0)) (fsub pz (Fin 0)))
                        (fmul (fsub pw (Fin 0)) (fsub pw (Fin 0)))))
             (fmul r r)"
    by (simp add: OutOfBounds_def Init_manager(4,5) [OF I])
  have nan: "\<not> OutOfBounds m ?P"
    if "px = NaN \<or> py = NaN \<or> pz = NaN \<or> pw = NaN \<or> cx = NaN \<or> cy = NaN \<or> r = NaN"
    unfolding eq using that
    by (elim disjE)
       (simp_all add: fsub_NaN fadd_NaN_right fmul_NaN_right fgt_NaN)
  have tol: "((1 + 1 / 10 ^ 5) * rad\<^sup>2 < (x - a)\<^sup>2 + (y - b)\<^sup>2 + (z - 0)\<^sup>2 + (w - 0)\<^sup>2
                \<longrightarrow> OutOfBounds m ?P)
             \<and> ((x - a)\<^sup>2 + (y - b)\<^sup>2 + (z - 0)\<^sup>2 + (w - 0)\<^sup>2 < (1 - 1 / 10 ^ 5) * rad\<^sup>2
                \<longrightarrow> \<not> OutOfBounds m ?P)"
    if h: "px = Fin x \<and> py = Fin y \<and> pz = Fin z \<and> pw = Fin w
            \<and> cx = Fin a \<and> cy = Fin b \<and> r = Fin rad
            \<and> \<bar>x\<bar> \<le> 2 \<and> \<bar>y\<bar> \<le> 2 \<and> \<bar>z\<bar> \<le> 2 \<and> \<bar>w\<bar> \<le> 2 \<and> \<bar>a\<bar> \<le> 2 \<and> \<bar>b\<bar> \<le> 2
            \<and> 1 / 1024 \<le> \<bar>rad\<bar> \<and> \<bar>rad\<bar> \<le> 2"
  proof -
    define E where "E = (x - a) * (x - a) + (y - b) * (y - b) + ((z - 0) * (z - 0) + (w - 0) * (w - 0))"
    define R where "R = rad * rad"
    have E2: "(x - a)\<^sup>2 + (y - b)\<^sup>2 + (z - 0)\<^sup>2 + (w - 0)\<^sup>2 = E"
      by (simp add: E_def power2_eq_square)
    have R2: "rad\<^sup>2 = R" by (simp add: R_def power2_eq_square)
    from h have b: "\<bar>x\<bar> \<le> 2" "\<bar>y\<bar> \<le> 2" "\<bar>z\<bar> \<le> 2" "\<bar>w\<bar> \<le> 2" "\<bar>a\<bar> \<le> 2" "\<bar>b\<bar> \<le> 2"
      and r1: "1 / 1024 \<le> \<bar>rad\<bar>" and r2: "\<bar>rad\<bar> \<le> 2"
      by simp_all
    from distance_error [OF b] obtain S where
      S: "fadd (fadd (fmul (fsub (Fin x) (Fin a)) (fsub (Fin x) (Fin a)))
                         (fmul (fsub (Fin y) (Fin b)) (fsub (Fin y) (Fin b))))
                   (fadd (fmul (fsub (Fin z) (Fin 0)) (fsub (Fin z) (Fin 0)))
                         (fmul (fsub (Fin w) (Fin 0)) (fsub (Fin w) (Fin 0)))) = Fin S"
      and Se: "\<bar>S - E\<bar> \<le> E / 2 ^ 20 + 1 / 2 ^ 142"
      unfolding E_def by blast
    have R0: "0 \<le> R" by (simp add: R_def)
    have "\<bar>rad\<bar> * \<bar>rad\<bar> \<le> 2 * 2" using r2 by (intro mult_mono) simp_all
    then have R4: "R \<le> 4" by (simp add: R_def)
    have "1 / 1024 * (1 / 1024) \<le> \<bar>rad\<bar> * \<bar>rad\<bar>" using r1 by (intro mult_mono) simp_all
    then have Rlo: "1 / 2 ^ 20 \<le> R" by (simp add: R_def)
    have "\<bar>rad * rad\<bar> \<le> 2 ^ 127" using R0 R4 unfolding R_def by simp
    from fmul_error [OF this] obtain rr where
      rr: "fmul (Fin rad) (Fin rad) = Fin rr"
      and "\<bar>rr - rad * rad\<bar> \<le> \<bar>rad * rad\<bar> / 2 ^ 24 + 1 / 2 ^ 150"
      by blast
    then have rre: "\<bar>rr - R\<bar> \<le> R / 2 ^ 24 + 1 / 2 ^ 150" using R0 by (simp add: R_def)
    have oob: "OutOfBounds m ?P \<longleftrightarrow> rr < S"
      unfolding eq using h by (simp only: S rr fgt.simps)
    define u v where "u = \<bar>S - E\<bar>" and "v = \<bar>rr - R\<bar>"
    have S1: "E - u \<le> S" and S2: "S \<le> E + u" and r1': "R - v \<le> rr" and r2': "rr \<le> R + v"
      unfolding u_def v_def by linarith+
    have u: "u \<le> E / 2 ^ 20 + 1 / 2 ^ 142" and v: "v \<le> R / 2 ^ 24 + 1 / 2 ^ 150"
      using Se rre unfolding u_def v_def by simp_all
    have "rr < S" if "(1 + 1 / 10 ^ 5) * R < E"
      using that S1 r2' u v Rlo by (simp add: field_simps)
    moreover have "\<not> rr < S" if "E < (1 - 1 / 10 ^ 5) * R"
      using that S2 r1' u v Rlo by (simp add: field_simps)
    ultimately show ?thesis unfolding E2 R2 oob by blast
  qed
  from eq nan tol show ?thesis by blast
qed

theorem OutOfBounds_single_precision_witness:
  "OutOfBounds
     (fst (Init 1 2 3 1 (Vec2 (Fin 0) (Fin 0)) (Fin 1) (Fin 1) (Fin 2)
             new_Particle new_ParticleManager (toast 3 4 1) new_GL))
     (new_Particle\<lparr>p_position := Vec4 (Fin 2) (Fin 0) (Fin 0) (Fin 0)\<rparr>)
   \<and> \<not> OutOfBounds
     (fst (Init 1 2 3 1 (Vec2 (Fin 0) (Fin 0)) (Fin 1) (Fin 1) (Fin 2)
             new_Particle new_ParticleManager (toast 3 4 1) new_GL))
     (new_Particle\<lparr>p_position := Vec4 (Fin (1 / 2)) (Fin 0) (Fin 0) (Fin 0)\<rparr>)
   \<and> \<not> OutOfBounds
     (fst (Init 1 2 3 1 (Vec2 (Fin 0) (Fin 0)) (Fin 1) (Fin 1) (Fin 2)
             new_Particle new_ParticleManager (toast 3 4 1) new_GL))
     (new_Particle\<lparr>p_position := Vec4 NaN NaN (Fin 0) (Fin 0)\<rparr>)"
proof -
  obtain m g1 gl1 where I: "Init 1 2 3 1 (Vec2 (Fin 0) (Fin 0)) (Fin 1) (Fin 1) (Fin 2)
                       new_Particle new_ParticleManager (toast 3 4 1) new_GL = (m, g1, gl1)"
    by (rule prod_cases3)
  have 1: "OutOfBounds m (new_Particle\<lparr>p_position := Vec4 (Fin 2) (Fin 0) (Fin 0) (Fin 0)\<rparr>)"
    using OutOfBounds_single_precision [OF I, where p = new_Particle
        and px = "Fin 2" and py = "Fin 0" and pz = "Fin 0" and pw = "Fin 0"
        and x = 2 and y = 0 and z = 0 and w = 0 and a = 0 and b = 0 and rad = 1,
        THEN conjunct2, THEN conjunct2]
    by simp
  have 2: "\<not> OutOfBounds m
      (new_Particle\<lparr>p_position := Vec4 (Fin (1 / 2)) (Fin 0) (Fin 0) (Fin 0)\<rparr>)"
    using OutOfBounds_single_precision [OF I, where p = new_Particle
        and px = "Fin (1 / 2)" and py = "Fin 0" and pz = "Fin 0" and pw = "Fin 0"
        and x = "1 / 2" and y = 0 and z = 0 and w = 0 and a = 0 and b = 0 and rad = 1,
        THEN conjunct2, THEN conjunct2]
    by (simp add: power2_eq_square)
  have 3: "\<not> OutOfBounds m (new_Particle\<lparr>p_position := Vec4 NaN NaN (Fin 0) (Fin 0)\<rparr>)"
    using OutOfBounds_single_precision [OF I, where p = new_Particle
        and px = NaN and py = NaN and pz = "Fin 0" and pw = "Fin 0",
        THEN conjunct2, THEN conjunct1]
    by simp
  from 1 2 3 show ?thesis unfolding I fst_conv by simp
qed

text \<open>
  The exact squared distance does not decide it: with center (0, 0) and radius 1, the
  position (1, 1/8192, 0, 0) is at the squared distance \<open>1 + 1 / 2 ^ 26\<close>, greater than 1,
  but the sum rounds to 1 and \<^verbatim>\<open>OutOfBounds\<close> is false.
\<close>

theorem OutOfBounds_exact_distance_counterexample:
  "\<not> OutOfBounds
       (fst (Init 1 2 3 1 (Vec2 (Fin 0) (Fin 0)) (Fin 1) (Fin 1) (Fin 2)
               new_Particle new_ParticleManager (toast 3 4 1) new_GL))
       (new_Particle\<lparr>p_position := Vec4 (Fin 1) (Fin (1 / 8192)) (Fin 0) (Fin 0)\<rparr>)
   \<and> (1 :: real)\<^sup>2 < (1 - 0)\<^sup>2 + (1 / 8192 - 0)\<^sup>2 + (0 - 0)\<^sup>2 + (0 - 0)\<^sup>2"
proof -
  obtain m g1 gl1 where I: "Init 1 2 3 1 (Vec2 (Fin 0) (Fin 0)) (Fin 1) (Fin 1) (Fin 2)
               new_Particle new_ParticleManager (toast 3 4 1) new_GL = (m, g1, gl1)"
    by (rule prod_cases3)
  have "\<not> OutOfBounds m
      (new_Particle\<lparr>p_position := Vec4 (Fin 1) (Fin (1 / 8192)) (Fin 0) (Fin 0)\<rparr>)"
    by (simp add: OutOfBounds_def Init_manager(4,5) [OF I] round32_0 round32_1 round32_2m13
        round32_2m26 round32_1_2m26)
  then show ?thesis unfolding I fst_conv by simp
qed

text \<open>
  Claim C4: after \<^verbatim>\<open>Init\<close> with \<open>numParticles\<close>, the collection of particles holds exactly
  \<open>numParticles\<close> records, and every one of them has been seeded by \<^verbatim>\<open>ResetParticle\<close> with a
  random position near the emitter center and a random velocity. The count is right, and
  each record is the result of \<^verbatim>\<open>ResetParticle\<close>; but the code breaks the seeding when the
  integers drawn for a record are multiples of 100: after \<^verbatim>\<open>Init\<close> with two particles and the
  draws 100, 200, 200, ..., the first record has the position (NaN, NaN, 0, 0) and the
  velocity (NaN, NaN, 0, 0), which is near no center.
\<close>

theorem Init_seeds_NaN:
  "length (m_allParticles
       (fst (Init 1 2 2 1 (Vec2 (Fin 0) (Fin 0)) (Fin 1) (Fin 1) (Fin 2)
               new_Particle new_ParticleManager (toast 100 200 (1 / 2)) new_GL))) = 2
   \<and> p_position (m_allParticles
       (fst (Init 1 2 2 1 (Vec2 (Fin 0) (Fin 0)) (Fin 1) (Fin 1) (Fin 2)
               new_Particle new_ParticleManager (toast 100 200 (1 / 2)) new_GL)) ! 0)
     = Vec4 NaN NaN (Fin 0) (Fin 0)
   \<and> p_velocity (m_allParticles
       (fst (Init 1 2 2 1 (Vec2 (Fin 0) (Fin 0)) (Fin 1) (Fin 1) (Fin 2)
               new_Particle new_ParticleManager (toast 100 200 (1 / 2)) new_GL)) ! 0)
     = Vec4 NaN NaN (Fin 0) (Fin 0)"
proof -
  obtain m g1 gl1 where I: "Init 1 2 2 1 (Vec2 (Fin 0) (Fin 0)) (Fin 1) (Fin 1) (Fin 2)
      new_Particle new_ParticleManager (toast 100 200 (1 / 2)) new_GL = (m, g1, gl1)"
    by (rule prod_cases3)
  let ?g = "toast 100 200 (1 / 2)"
  let ?p = "resize (m_allParticles new_ParticleManager) (unat (2 :: u32)) new_Particle ! 0"
  have len: "length (m_allParticles m) = 2" using Init_manager(9) [OF I] by simp
  have "m_allParticles m ! 0 = fst (ResetParticle m ?p (rng_after 0 ?g))"
    using Init_manager(10) [OF I] by simp
  then have el: "m_allParticles m ! 0 = fst (ResetParticle m ?p ?g)" by (simp only: rng_after_0)
  have z: "c_rem (shd (posAndNeg ?g)) 100 = 0" "c_rem (shd (stl (posAndNeg ?g))) 100 = 0"
    by (simp_all add: toast_def c_rem_def)
  have pos: "p_position (fst (ResetParticle m ?p ?g)) = Vec4 NaN NaN (Fin 0) (Fin 0)"
    by (rule zero_direction_position [OF z])
  let ?g' = "?g\<lparr>posAndNeg := stl (stl (posAndNeg ?g)), onRange0to1 := stl (onRange0to1 ?g)\<rparr>"
  have z': "c_rem (shd (posAndNeg ?g')) 100 = 0" "c_rem (shd (stl (posAndNeg ?g'))) 100 = 0"
    by (simp_all add: toast_def c_rem_def)
  have "p_velocity (fst (ResetParticle m ?p ?g)) = vec4_of (fst (GetNewVelocityVector m ?g')) (Fin 0) (Fin 0)"
    by (simp add: ResetParticle_fst)
  then have vel: "p_velocity (fst (ResetParticle m ?p ?g)) = Vec4 NaN NaN (Fin 0) (Fin 0)"
    by (simp add: zero_direction_velocity [OF z'])
  from len pos vel show ?thesis unfolding I fst_conv el by simp
qed

text \<open>
  Claim C5, as amended: for a manager initialised with fewer than \<open>2 ^ 31\<close> particles,
  \<^verbatim>\<open>Render\<close> issues exactly one draw call, in the mode \<^verbatim>\<open>GL_POINTS\<close>, with first vertex 0
  and a vertex count equal to the number of particles given to \<^verbatim>\<open>Init\<close>. The count is
  passed as a \<^verbatim>\<open>GLsizei\<close>, a signed integer of 32 bits, which cannot hold a larger number.
\<close>

theorem Render_draws_all:
  assumes "Init programId computeProgramId numParticles maxParticlesEmittedPerFrame
             center radius minVelocity maxVelocity fresh m0 g0 gl0 = (m, g1, gl1)"
    and "unat numParticles < 2 ^ 31"
  shows "filter is_draw (issued gl (snd (Render m gl)))
           = [glDrawArrays GL_POINTS 0 (int (unat numParticles))]"
  using assms(2)
  by (simp add: Render_def issued_issue Init_manager(3,9) [OF assms(1)] sint_small)

theorem Render_draws_all_witness:
  "filter is_draw (issued new_GL (snd (Render
       (fst (Init 1 2 1000 1 (Vec2 (Fin 0) (Fin 0)) (Fin 1) (Fin 1) (Fin 2)
               new_Particle new_ParticleManager (toast 3 4 1) new_GL)) new_GL)))
     = [glDrawArrays GL_POINTS 0 1000]"
proof -
  obtain m g1 gl1 where I: "Init 1 2 1000 1 (Vec2 (Fin 0) (Fin 0)) (Fin 1) (Fin 1) (Fin 2)
                       new_Particle new_ParticleManager (toast 3 4 1) new_GL = (m, g1, gl1)"
    by (rule prod_cases3)
  have "unat (1000 :: u32) < 2 ^ 31" by simp
  from Render_draws_all [OF I this, of new_GL] show ?thesis unfolding I fst_conv by simp
qed

text \<open>
  With \<open>2 ^ 31 = 2147483648\<close> particles, a value that the \<^verbatim>\<open>unsigned int\<close> parameter of
  \<^verbatim>\<open>Init\<close> accepts, the count that \<^verbatim>\<open>Render\<close> passes is \<open>- 2147483648\<close>.
\<close>

theorem Render_draws_all_counterexample:
  "filter is_draw (issued new_GL (snd (Render
       (fst (Init 1 2 2147483648 1 (Vec2 (Fin 0) (Fin 0)) (Fin 1) (Fin 1) (Fin 2)
               new_Particle new_ParticleManager (toast 3 4 1) new_GL)) new_GL)))
     = [glDrawArrays GL_POINTS 0 (- 2147483648)]
   \<and> (- 2147483648 :: int) \<noteq> int (unat (2147483648 :: u32))"
proof -
  obtain m g1 gl1 where I: "Init 1 2 2147483648 1 (Vec2 (Fin 0) (Fin 0)) (Fin 1) (Fin 1) (Fin 2)
                       new_Particle new_ParticleManager (toast 3 4 1) new_GL = (m, g1, gl1)"
    by (rule prod_cases3)
  have "sint (2147483648 :: u32) = - 2147483648" by simp
  then show ?thesis unfolding I fst_conv 
    by (simp add: Render_def issued_issue Init_manager(3,9) [OF I])
qed

text \<open>
  Claim C6: the collection of particles has the size \<open>numParticles\<close> after \<^verbatim>\<open>Init\<close>, and no
  sequence of later calls of \<^verbatim>\<open>Update\<close> and \<^verbatim>\<open>Render\<close> changes that size.
\<close>

theorem particle_count_fixed:
  assumes "Init programId computeProgramId numParticles maxParticlesEmittedPerFrame
             center radius minVelocity maxVelocity fresh m0 g0 gl0 = (m, g1, gl1)"
  shows "length (m_allParticles m) = unat numParticles \<and>
         length (m_allParticles (fst (frames cs (m, gl)))) = unat numParticles"
  by (simp add: frames_fst Init_manager(9) [OF assms])

theorem particle_count_fixed_witness:
  "length (m_allParticles (fst (frames [CallUpdate (Fin (1 / 60)), CallRender, CallUpdate (Fin (1 / 30))]
       (fst (Init 1 2 1000 1 (Vec2 (Fin 0) (Fin 0)) (Fin 1) (Fin 1) (Fin 2)
               new_Particle new_ParticleManager (toast 3 4 1) new_GL), new_GL)))) = 1000"
proof -
  obtain m g1 gl1 where I: "Init 1 2 1000 1 (Vec2 (Fin 0) (Fin 0)) (Fin 1) (Fin 1) (Fin 2)
                       new_Particle new_ParticleManager (toast 3 4 1) new_GL = (m, g1, gl1)"
    by (rule prod_cases3)
  from particle_count_fixed [OF I, of "[CallUpdate (Fin (1 / 60)), CallRender, CallUpdate (Fin (1 / 30))]" new_GL]
  show ?thesis unfolding I fst_conv by simp
qed

text \<open>
  Claim C7: every call of \<^verbatim>\<open>Update\<close> issues exactly one compute dispatch and then exactly
  one memory barrier, and no other synchronisation: its calls are the five below, in this
  order. Whatever \<^verbatim>\<open>Update\<close> and \<^verbatim>\<open>Render\<close> calls follow, their calls come after these five
  in the log, so the barrier follows the dispatch and precedes any later draw.
\<close>

theorem Update_dispatch_then_barrier:
  "issued gl (snd (Update m deltaTimeSec gl))
     = [glUseProgram (m_computeProgramId m),
        glUniform1f (m_unifLocDeltaTimeSec m) deltaTimeSec,
        glDispatchCompute (word_of_nat (length (m_allParticles m) div 256 + 1)) 1 1,
        glMemoryBarrier GL_ALL_BARRIER_BITS,
        glUseProgram 0]
   \<and> issued gl (snd (frames cs (Update m deltaTimeSec gl)))
     = issued gl (snd (Update m deltaTimeSec gl))
       @ issued (snd (Update m deltaTimeSec gl)) (snd (frames cs (Update m deltaTimeSec gl)))"
proof -
  have 1: "gl_calls (snd (Update m deltaTimeSec gl))
     = gl_calls gl @ [glUseProgram (m_computeProgramId m),
        glUniform1f (m_unifLocDeltaTimeSec m) deltaTimeSec,
        glDispatchCompute (word_of_nat (length (m_allParticles m) div 256 + 1)) 1 1,
        glMemoryBarrier GL_ALL_BARRIER_BITS,
        glUseProgram 0]"
    by (simp add: Update_def Let_def issue_def)
  obtain ys where 2: "gl_calls (snd (frames cs (Update m deltaTimeSec gl)))
      = gl_calls (snd (Update m deltaTimeSec gl)) @ ys"
    using frames_calls by blast
  have "issued gl (snd (Update m deltaTimeSec gl))
     = [glUseProgram (m_computeProgramId m),
        glUniform1f (m_unifLocDeltaTimeSec m) deltaTimeSec,
        glDispatchCompute (word_of_nat (length (m_allParticles m) div 256 + 1)) 1 1,
        glMemoryBarrier GL_ALL_BARRIER_BITS,
        glUseProgram 0]"
    by (simp add: issued_def 1)
  with issued_append [OF 1 2] show ?thesis by simp
qed

theorem Update_dispatch_then_barrier_witness:
  "filter (\<lambda>c. is_dispatch c \<or> is_barrier c \<or> is_draw c)
     (issued new_GL
        (snd (frames [CallRender] (Update new_ParticleManager (Fin (1 / 60)) new_GL))))
     = [glDispatchCompute 1 1 1, glMemoryBarrier GL_ALL_BARRIER_BITS,
        glDrawArrays GL_POINTS 0 0]"
  using Update_dispatch_then_barrier [of new_GL new_ParticleManager "Fin (1 / 60)" "[CallRender]"]
  by (simp add: Update_def Render_def issue_def issued_def new_GL_def new_ParticleManager_def)

text \<open>
  Claim C8: \<^verbatim>\<open>ResetParticle\<close> writes the position and the velocity of the particle and
  nothing else: the "is active" flag is the one the particle had.
\<close>

theorem ResetParticle_keeps_isActive:
  "p_isActive (fst (ResetParticle m p g)) = p_isActive p
   \<and> fst (ResetParticle m p g)
     = p\<lparr>p_position := p_position (fst (ResetParticle m p g)),
         p_velocity := p_velocity (fst (ResetParticle m p g))\<rparr>"
  by (simp add: ResetParticle_fst)

text \<open>
  Claim C9: \<^verbatim>\<open>Update\<close> leaves the manager as it was, the particles and every other member:
  it only issues calls to OpenGL.
\<close>

theorem Update_keeps_manager: "fst (Update m deltaTimeSec gl) = m"
  by (simp add: Update_def Let_def)

text \<open>
  Claim C10: the dispatch of \<^verbatim>\<open>Update\<close> has \<open>numParticles div 256 + 1\<close> work groups in X (the
  \<^verbatim>\<open>GLuint\<close> holds that number without wrapping) and 1 in Y and in Z, so that with 256
  invocations in a group there are at least \<open>numParticles\<close> invocations.
\<close>

theorem Update_work_groups:
  assumes "Init programId computeProgramId numParticles maxParticlesEmittedPerFrame
             center radius minVelocity maxVelocity fresh m0 g0 gl0 = (m, g1, gl1)"
  shows "filter is_dispatch (issued gl (snd (Update m deltaTimeSec gl)))
           = [glDispatchCompute (word_of_nat (unat numParticles div 256 + 1)) 1 1]
         \<and> unat (word_of_nat (unat numParticles div 256 + 1) :: u32)
           = unat numParticles div 256 + 1
         \<and> unat numParticles \<le> (unat numParticles div 256 + 1) * 256"
proof (intro conjI)
  show "filter is_dispatch (issued gl (snd (Update m deltaTimeSec gl)))
           = [glDispatchCompute (word_of_nat (unat numParticles div 256 + 1)) 1 1]"
    by (simp add: Update_def Let_def issued_issue Init_manager(9) [OF assms])
  show "unat (word_of_nat (unat numParticles div 256 + 1) :: u32)
           = unat numParticles div 256 + 1"
    by (rule dispatch_count)
  have "unat numParticles = unat numParticles div 256 * 256 + unat numParticles mod 256"
    by simp
  also have "\<dots> \<le> unat numParticles div 256 * 256 + 256"
    by (intro add_left_mono) simp
  finally show "unat numParticles \<le> (unat numParticles div 256 + 1) * 256" by simp
qed

theorem Update_work_groups_witness:
  "filter is_dispatch (issued new_GL (snd (Update
       (fst (Init 1 2 1000 1 (Vec2 (Fin 0) (Fin 0)) (Fin 1) (Fin 1) (Fin 2)
               new_Particle new_ParticleManager (toast 3 4 1) new_GL))
       (Fin (1 / 60)) new_GL)))
     = [glDispatchCompute 4 1 1]"
proof -
  obtain m g1 gl1 where I: "Init 1 2 1000 1 (Vec2 (Fin 0) (Fin 0)) (Fin 1) (Fin 1) (Fin 2)
                       new_Particle new_ParticleManager (toast 3 4 1) new_GL = (m, g1, gl1)"
    by (rule prod_cases3)
  from Update_work_groups [OF I, of new_GL "Fin (1 / 60)"] show ?thesis
    unfolding I fst_conv by simp
qed

end
